theory Spec2Isabelle
  imports Complex_Main "HOL-Library.Word"
begin

unbundle bit_operations_syntax

section \<open>Ruby values at the C boundary\<close>

text \<open>
  The extension receives its arguments as an array \<open>argv\<close> of Ruby \<open>VALUE\<close>s. The
  macros \<open>TYPE\<close> (here \<open>rb_type\<close>, the function it expands to), \<open>FIXNUM_P\<close>, \<open>NUM2DBL\<close>,
  \<open>NUM2INT\<close>, \<open>INT2NUM\<close> and the function \<open>rb_ary_entry\<close> belong to the Ruby interpreter
  (ruby.h), not to this repository; they are modelled by what they do on the values
  the transform functions can be handed: booleans, \<open>nil\<close>, Fixnums, Floats, Arrays,
  and Strings for everything else. A Float, an Array or a String lives on Ruby's heap
  and its raw \<open>VALUE\<close> is its address, the first argument of the constructor. A C
  \<open>double\<close> is idealised as a real number: the functions only convert it, test its
  sign and pass it on.
\<close>

datatype VALUE =
    Qfalse
  | Qtrue
  | Qnil
  | Fixnum int
  | Float nat real
  | Array nat "VALUE list"
  | Str nat string

datatype ruby_type = T_FALSE | T_TRUE | T_NIL | T_FIXNUM | T_FLOAT | T_ARRAY | T_STRING

fun rb_type :: "VALUE \<Rightarrow> ruby_type" where
  "rb_type Qfalse = T_FALSE"
| "rb_type Qtrue = T_TRUE"
| "rb_type Qnil = T_NIL"
| "rb_type (Fixnum n) = T_FIXNUM"
| "rb_type (Float a x) = T_FLOAT"
| "rb_type (Array a xs) = T_ARRAY"
| "rb_type (Str a s) = T_STRING"

fun FIXNUM_P :: "VALUE \<Rightarrow> bool" where
  "FIXNUM_P (Fixnum n) = True"
| "FIXNUM_P v = False"

text \<open>
  A raw \<open>VALUE\<close> assigned to a C \<open>int\<close>, as in \<open>xaxis = argv[0]\<close> and \<open>smooth = argv[2]\<close>.
  ruby.h encodes \<open>Qfalse\<close> as 0, \<open>Qtrue\<close> as 2, \<open>Qnil\<close> as 4, the Fixnum \<open>n\<close> as
  \<open>2 * n + 1\<close> and every other object as its address. A \<open>VALUE\<close> is an \<open>unsigned long\<close>,
  of 32 or of 64 bits; the \<open>int\<close> keeps its low 32 bits.
\<close>

fun C_int :: "VALUE \<Rightarrow> 32 word" where
  "C_int Qfalse = 0"
| "C_int Qtrue = 2"
| "C_int Qnil = 4"
| "C_int (Fixnum n) = word_of_int (2 * n + 1)"
| "C_int (Float a x) = word_of_nat a"
| "C_int (Array a xs) = word_of_nat a"
| "C_int (Str a s) = word_of_nat a"

text \<open>The test \<open>!xaxis\<close> on that \<open>int\<close>.\<close>

definition VALUE_is_zero :: "VALUE \<Rightarrow> bool" where
  "VALUE_is_zero v = (C_int v = 0)"

text \<open>The exceptions the transform functions raise, one constructor per \<open>rb_raise\<close>.\<close>

datatype error =
    ArgError_wrong_number nat nat
      \<comment> \<open>\<open>rb_eArgError\<close>, "wrong number of arguments (argc for n)"\<close>
  | ArgError_wrong_zoom_type
      \<comment> \<open>\<open>rb_eArgError\<close>, "wrong zoom factor type (expected Array or Numeric)"\<close>
  | SDLError_unsupported_depth
      \<comment> \<open>\<open>eSDLError\<close>, "unsupported Surface bit depth for transform"\<close>
  | SDLError_alloc
      \<comment> \<open>\<open>eSDLError\<close> with the text of \<open>SDL_GetError\<close>, after a failed allocation\<close>
  | SDLError_no_rotozoomxy nat nat nat
      \<comment> \<open>\<open>eSDLError\<close>, "Separate X/Y rotozoom scale factors is not supported ... (major,minor,micro)"\<close>
  | SDLError_negative_zoom nat nat nat
      \<comment> \<open>\<open>eSDLError\<close>, "Negative rotozoom scale factor is not supported ... (major,minor,micro)"\<close>
  | SDLError_could_not_rotozoom
      \<comment> \<open>\<open>eSDLError\<close>, "Could not rotozoom surface: ..."\<close>
  | TypeError
      \<comment> \<open>\<open>rb_eTypeError\<close>, raised inside \<open>NUM2DBL\<close> or \<open>NUM2INT\<close>\<close>
  | RangeError
      \<comment> \<open>\<open>rb_eRangeError\<close>, raised inside \<open>NUM2INT\<close> for a number outside the C \<open>int\<close>\<close>
  | Invalid_access
      \<comment> \<open>\<open>rb_ary_entry\<close> on a \<open>VALUE\<close> that is no Array: the C behaviour is undefined\<close>

fun NUM2DBL :: "VALUE \<Rightarrow> error + real" where
  "NUM2DBL (Fixnum n) = Inr (of_int n)"
| "NUM2DBL (Float a x) = Inr x"
| "NUM2DBL v = Inl TypeError"

text \<open>
  \<open>NUM2INT\<close> truncates a Float towards zero and raises \<open>RangeError\<close> for a number that
  does not fit a 32-bit C \<open>int\<close>.
\<close>

definition check_int :: "int \<Rightarrow> error + int" where
  "check_int n = (if - (2 ^ 31) \<le> n \<and> n < 2 ^ 31 then Inr n else Inl RangeError)"

fun NUM2INT :: "VALUE \<Rightarrow> error + int" where
  "NUM2INT (Fixnum n) = check_int n"
| "NUM2INT (Float a x) = check_int (if 0 \<le> x then \<lfloor>x\<rfloor> else \<lceil>x\<rceil>)"
| "NUM2INT v = Inl TypeError"

fun rb_ary_entry :: "VALUE \<Rightarrow> nat \<Rightarrow> error + VALUE" where
  "rb_ary_entry (Array a xs) i = Inr (if i < length xs then xs ! i else Qnil)"
| "rb_ary_entry v i = Inl Invalid_access"

text \<open>
  \<open>rb_ary_new3\<close> allocates a Ruby Array; the address Ruby gives it is the parameter
  \<open>ary\<close> of the functions that call it.
\<close>

definition rb_ary_new3 :: "nat \<Rightarrow> VALUE list \<Rightarrow> VALUE" where
  "rb_ary_new3 ary xs = Array ary xs"

definition INT2NUM :: "int \<Rightarrow> VALUE" where
  "INT2NUM n = Fixnum n"

section \<open>SDL surfaces\<close>

text \<open>
  \<open>SDL_Surface\<close> and \<open>SDL_PixelFormat\<close> are SDL's structs (SDL_video.h); the fields are
  those the transform functions read. Widths, heights, pitches and the two depth
  fields are unsigned by SDL's invariants. A surface pointer is an index into the heap,
  the list of all surfaces allocated so far.
\<close>

type_synonym Uint8 = "8 word"
type_synonym Uint16 = "16 word"
type_synonym Uint32 = "32 word"
type_synonym SDL_Color = "Uint8 \<times> Uint8 \<times> Uint8"

record SDL_PixelFormat =
  palette :: "SDL_Color list option"
  BitsPerPixel :: nat
  BytesPerPixel :: nat
  Rmask :: Uint32
  Gmask :: Uint32
  Bmask :: Uint32
  Amask :: Uint32
  colorkey :: Uint32

record SDL_Surface =
  surf_flags :: Uint32
  surf_format :: SDL_PixelFormat
  surf_w :: nat
  surf_h :: nat
  surf_pitch :: nat
  surf_pixels :: "Uint8 list"

type_synonym heap = "SDL_Surface list"

definition SDL_SRCCOLORKEY :: Uint32 where
  "SDL_SRCCOLORKEY = 0x00001000"

definition SDL_RLEACCEL :: Uint32 where
  "SDL_RLEACCEL = 0x00004000"

text \<open>
  \<open>SDL_CreateRGBSurface\<close>, \<open>SDL_SetColors\<close> and \<open>SDL_SetColorKey\<close> are SDL's. The
  allocator is modelled by its contract: a new surface with the requested flags, size
  and depth and a zeroed pixel buffer of \<open>pitch * height\<close> bytes, appended to the heap.
  The row pitch SDL chooses, or that the allocation fails (\<open>None\<close>), is the parameter
  \<open>CalculatePitch\<close>, a function of the width, the height and the depth in bits.
\<close>

type_synonym allocator = "nat \<Rightarrow> nat \<Rightarrow> nat \<Rightarrow> nat option"

definition SDL_CreateRGBSurface ::
  "allocator \<Rightarrow> heap \<Rightarrow> Uint32 \<Rightarrow> nat \<Rightarrow> nat \<Rightarrow> nat \<Rightarrow> Uint32 \<Rightarrow> Uint32 \<Rightarrow> Uint32 \<Rightarrow> Uint32
     \<Rightarrow> nat option \<times> heap" where
  "SDL_CreateRGBSurface CalculatePitch hp fl width height depth rm gm bm am =
     (case CalculatePitch width height depth of
        None \<Rightarrow> (None, hp)
      | Some p \<Rightarrow>
          (Some (length hp),
           hp @ [\<lparr>surf_flags = fl,
                  surf_format =
                    \<lparr>palette = (if depth \<le> 8 then Some (replicate (2 ^ depth) (0, 0, 0)) else None),
                     BitsPerPixel = depth,
                     BytesPerPixel = (depth + 7) div 8,
                     Rmask = rm, Gmask = gm, Bmask = bm, Amask = am,
                     colorkey = 0\<rparr>,
                  surf_w = width, surf_h = height, surf_pitch = p,
                  surf_pixels = replicate (p * height) 0\<rparr>]))"

definition SDL_SetColors :: "heap \<Rightarrow> nat \<Rightarrow> SDL_Color list \<Rightarrow> nat \<Rightarrow> nat \<Rightarrow> heap" where
  "SDL_SetColors hp surface cols firstcolor ncolors =
     (let s = hp ! surface; fmt = surf_format s in
      case palette fmt of
        None \<Rightarrow> hp
      | Some old \<Rightarrow>
          hp[surface := s\<lparr>surf_format :=
               fmt\<lparr>palette := Some (take (length old)
                  (take firstcolor old @ take ncolors cols @ drop (firstcolor + ncolors) old))\<rparr>\<rparr>])"

definition SDL_SetColorKey :: "heap \<Rightarrow> nat \<Rightarrow> Uint32 \<Rightarrow> Uint32 \<Rightarrow> heap" where
  "SDL_SetColorKey hp surface flag key =
     (let s = hp ! surface in
      hp[surface := s\<lparr>surf_flags := surf_flags s OR (flag AND (SDL_SRCCOLORKEY OR SDL_RLEACCEL)),
                       surf_format := (surf_format s)\<lparr>colorkey := key\<rparr>\<rparr>])"

section \<open>The surface allocator \<open>newsurf_fromsurf\<close>\<close>

definition newsurf_fromsurf :: "allocator \<Rightarrow> heap \<Rightarrow> nat \<Rightarrow> nat \<Rightarrow> nat \<Rightarrow> (error + nat) \<times> heap" where
  "newsurf_fromsurf A hp surf width height =
     (let fmt = surf_format (hp ! surf) in
      if BytesPerPixel fmt \<le> 0 \<or> BytesPerPixel fmt > 4
      then (Inl SDLError_unsupported_depth, hp)
      else
        case SDL_CreateRGBSurface A hp (surf_flags (hp ! surf)) width height (BitsPerPixel fmt)
               (Rmask fmt) (Gmask fmt) (Bmask fmt) (Amask fmt) of
          (None, hp1) \<Rightarrow> (Inl SDLError_alloc, hp1)
        | (Some newsurf, hp1) \<Rightarrow>
            let hp2 = (if BytesPerPixel fmt = 1 \<and> palette fmt \<noteq> None
                       then SDL_SetColors hp1 newsurf (the (palette fmt)) 0 (length (the (palette fmt)))
                       else hp1);
                hp3 = (if surf_flags (hp ! surf) AND SDL_SRCCOLORKEY \<noteq> 0
                       then SDL_SetColorKey hp2 newsurf
                              ((surf_flags (hp ! surf) AND SDL_RLEACCEL) OR SDL_SRCCOLORKEY)
                              (colorkey fmt)
                       else hp2)
            in (Inr newsurf, hp3))"

section \<open>The flip kernel\<close>

text \<open>
  \<open>for (i = 0; i < n; ++i) body\<close>: the loop variable counts up, the body transforms the
  state of the variables it assigns.
\<close>

function for_loop :: "nat \<Rightarrow> nat \<Rightarrow> (nat \<Rightarrow> 's \<Rightarrow> 's) \<Rightarrow> 's \<Rightarrow> 's" where
  "for_loop i n body s = (if i < n then for_loop (Suc i) n body (body i s) else s)"
  by pat_completeness auto
termination
  by (relation "measure (\<lambda>(i, n, body, s). n - i)") auto

declare for_loop.simps [simp del]

text \<open>\<open>memcpy (dstpix + d, srcpix + s, n)\<close> on two buffers that do not overlap.\<close>

fun memcpy :: "Uint8 list \<Rightarrow> nat \<Rightarrow> Uint8 list \<Rightarrow> nat \<Rightarrow> nat \<Rightarrow> Uint8 list" where
  "memcpy dstpix d srcpix s 0 = dstpix"
| "memcpy dstpix d srcpix s (Suc n) = memcpy (dstpix[d := srcpix ! s]) (Suc d) srcpix (Suc s) n"

text \<open>
  Reads and writes through a \<open>Uint8*\<close>, \<open>Uint16*\<close> or \<open>Uint32*\<close>. A pointer into a pixel
  buffer is its byte offset from the start of the buffer, an \<open>int\<close> because the source
  pointer of a row steps below the row after its last read. Multi-byte pixels are
  native-endian words, here little-endian.
\<close>

definition peek8 :: "Uint8 list \<Rightarrow> int \<Rightarrow> Uint8" where
  "peek8 buf p = buf ! nat p"

definition poke8 :: "Uint8 list \<Rightarrow> int \<Rightarrow> Uint8 \<Rightarrow> Uint8 list" where
  "poke8 buf p v = buf[nat p := v]"

definition peek16 :: "Uint8 list \<Rightarrow> int \<Rightarrow> Uint16" where
  "peek16 buf p = ucast (buf ! nat p) OR push_bit 8 (ucast (buf ! (nat p + 1)))"

definition poke16 :: "Uint8 list \<Rightarrow> int \<Rightarrow> Uint16 \<Rightarrow> Uint8 list" where
  "poke16 buf p v = buf[nat p := ucast v, nat p + 1 := ucast (drop_bit 8 v)]"

definition peek32 :: "Uint8 list \<Rightarrow> int \<Rightarrow> Uint32" where
  "peek32 buf p =
     ucast (buf ! nat p) OR push_bit 8 (ucast (buf ! (nat p + 1)))
       OR push_bit 16 (ucast (buf ! (nat p + 2))) OR push_bit 24 (ucast (buf ! (nat p + 3)))"

definition poke32 :: "Uint8 list \<Rightarrow> int \<Rightarrow> Uint32 \<Rightarrow> Uint8 list" where
  "poke32 buf p v =
     buf[nat p := ucast v, nat p + 1 := ucast (drop_bit 8 v),
         nat p + 2 := ucast (drop_bit 16 v), nat p + 3 := ucast (drop_bit 24 v)]"

text \<open>
  The four inner loops \<open>for (loopx = 0; loopx < surf->w; ++loopx)\<close>, one per pixel size.
  The state is \<open>(dst, src, dstpix)\<close>: the two pointers and the destination buffer.
\<close>

definition row_Uint8 :: "Uint8 list \<Rightarrow> nat \<Rightarrow> int \<Rightarrow> int \<Rightarrow> Uint8 list \<Rightarrow> Uint8 list" where
  "row_Uint8 srcpix sw dst0 src0 dstpix0 =
     snd (snd (for_loop 0 sw
       (\<lambda>loopx (dst, src, dstpix). (dst + 1, src - 1, poke8 dstpix dst (peek8 srcpix src)))
       (dst0, src0, dstpix0)))"

definition row_Uint16 :: "Uint8 list \<Rightarrow> nat \<Rightarrow> int \<Rightarrow> int \<Rightarrow> Uint8 list \<Rightarrow> Uint8 list" where
  "row_Uint16 srcpix sw dst0 src0 dstpix0 =
     snd (snd (for_loop 0 sw
       (\<lambda>loopx (dst, src, dstpix). (dst + 2, src - 2, poke16 dstpix dst (peek16 srcpix src)))
       (dst0, src0, dstpix0)))"

definition row_Uint32 :: "Uint8 list \<Rightarrow> nat \<Rightarrow> int \<Rightarrow> int \<Rightarrow> Uint8 list \<Rightarrow> Uint8 list" where
  "row_Uint32 srcpix sw dst0 src0 dstpix0 =
     snd (snd (for_loop 0 sw
       (\<lambda>loopx (dst, src, dstpix). (dst + 4, src - 4, poke32 dstpix dst (peek32 srcpix src)))
       (dst0, src0, dstpix0)))"

definition row_3bytes :: "Uint8 list \<Rightarrow> nat \<Rightarrow> int \<Rightarrow> int \<Rightarrow> Uint8 list \<Rightarrow> Uint8 list" where
  "row_3bytes srcpix sw dst0 src0 dstpix0 =
     snd (snd (for_loop 0 sw
       (\<lambda>loopx (dst, src, dstpix).
          (dst + 3, src - 3,
           poke8 (poke8 (poke8 dstpix dst (peek8 srcpix src))
                    (dst + 1) (peek8 srcpix (src + 1)))
             (dst + 2) (peek8 srcpix (src + 2))))
       (dst0, src0, dstpix0)))"

text \<open>
  The pixel-filling phase of \<open>rbgm_transform_flip\<close>, between \<open>SDL_LockSurface\<close> and
  \<open>SDL_UnlockSurface\<close>: \<open>xaxis\<close> and \<open>yaxis\<close> are the raw arguments, \<open>sw\<close>, \<open>sh\<close> and \<open>bpp\<close>
  are \<open>surf->w\<close>, \<open>surf->h\<close> and \<open>surf->format->BytesPerPixel\<close>. The \<open>switch\<close> has no
  default: another pixel size leaves the destination as allocated.
\<close>

definition flip_pixels ::
  "VALUE \<Rightarrow> VALUE \<Rightarrow> nat \<Rightarrow> nat \<Rightarrow> nat \<Rightarrow> nat \<Rightarrow> nat \<Rightarrow> Uint8 list \<Rightarrow> Uint8 list \<Rightarrow> Uint8 list" where
  "flip_pixels xaxis yaxis sw sh bpp srcpitch dstpitch srcpix dstpix =
     (if VALUE_is_zero xaxis then
        (if VALUE_is_zero yaxis then
           for_loop 0 sh (\<lambda>loopy dp.
             memcpy dp (loopy * dstpitch) srcpix (loopy * srcpitch) (sw * bpp)) dstpix
         else
           for_loop 0 sh (\<lambda>loopy dp.
             memcpy dp (loopy * dstpitch) srcpix ((sh - 1 - loopy) * srcpitch) (sw * bpp)) dstpix)
      else
        (if \<not> VALUE_is_zero yaxis then
           (if bpp = 1 then
              for_loop 0 sh (\<lambda>loopy dp.
                row_Uint8 srcpix sw (int (loopy * dstpitch))
                  (int ((sh - 1 - loopy) * srcpitch) + int sw - 1) dp) dstpix
            else if bpp = 2 then
              for_loop 0 sh (\<lambda>loopy dp.
                row_Uint16 srcpix sw (int (loopy * dstpitch))
                  (int ((sh - 1 - loopy) * srcpitch) + 2 * (int sw - 1)) dp) dstpix
            else if bpp = 4 then
              for_loop 0 sh (\<lambda>loopy dp.
                row_Uint32 srcpix sw (int (loopy * dstpitch))
                  (int ((sh - 1 - loopy) * srcpitch) + 4 * (int sw - 1)) dp) dstpix
            else if bpp = 3 then
              for_loop 0 sh (\<lambda>loopy dp.
                row_3bytes srcpix sw (int (loopy * dstpitch))
                  (int ((sh - 1 - loopy) * srcpitch) + int sw * 3 - 3) dp) dstpix
            else dstpix)
         else
           (if bpp = 1 then
              for_loop 0 sh (\<lambda>loopy dp.
                row_Uint8 srcpix sw (int (loopy * dstpitch))
                  (int (loopy * srcpitch) + int sw - 1) dp) dstpix
            else if bpp = 2 then
              for_loop 0 sh (\<lambda>loopy dp.
                row_Uint16 srcpix sw (int (loopy * dstpitch))
                  (int (loopy * srcpitch) + 2 * (int sw - 1)) dp) dstpix
            else if bpp = 4 then
              for_loop 0 sh (\<lambda>loopy dp.
                row_Uint32 srcpix sw (int (loopy * dstpitch))
                  (int (loopy * srcpitch) + 4 * (int sw - 1)) dp) dstpix
            else if bpp = 3 then
              for_loop 0 sh (\<lambda>loopy dp.
                row_3bytes srcpix sw (int (loopy * dstpitch))
                  (int (loopy * srcpitch) + int sw * 3 - 3) dp) dstpix
            else dstpix)))"

section \<open>\<open>rbgm_transform_flip\<close>\<close>

text \<open>
  \<open>self\<close> is the pointer \<open>Data_Get_Struct\<close> unwraps; the result is the pointer that
  \<open>Data_Wrap_Struct\<close> wraps, or the exception raised, with the heap after the call.
  \<open>argv[0]\<close> and \<open>argv[1]\<close> are read before the arity check, but used only after it.
\<close>

definition rbgm_transform_flip ::
  "allocator \<Rightarrow> heap \<Rightarrow> VALUE list \<Rightarrow> nat \<Rightarrow> (error + nat) \<times> heap" where
  "rbgm_transform_flip A hp argv self =
     (let argc = length argv in
      if argc < 2 then (Inl (ArgError_wrong_number argc 2), hp)
      else
        let xaxis = argv ! 0; yaxis = argv ! 1; surf = self in
        case newsurf_fromsurf A hp surf (surf_w (hp ! surf)) (surf_h (hp ! surf)) of
          (Inl e, hp1) \<Rightarrow> (Inl e, hp1)
        | (Inr newsurf, hp1) \<Rightarrow>
            let pixsize = BytesPerPixel (surf_format (hp1 ! surf));
                srcpitch = surf_pitch (hp1 ! surf);
                dstpitch = surf_pitch (hp1 ! newsurf);
                srcpix = surf_pixels (hp1 ! surf);
                dstpix = surf_pixels (hp1 ! newsurf);
                filled = flip_pixels xaxis yaxis (surf_w (hp1 ! surf)) (surf_h (hp1 ! surf))
                           pixsize srcpitch dstpitch srcpix dstpix
            in (Inr newsurf, hp1[newsurf := (hp1 ! newsurf)\<lparr>surf_pixels := filled\<rparr>]))"

section \<open>The SDL_gfx front ends\<close>

text \<open>
  \<open>rotozoomSurface\<close>, \<open>rotozoomSurfaceXY\<close>, \<open>zoomSurface\<close> and the three size functions
  belong to SDL_gfx; \<open>HAVE_ROTOZOOMXY\<close> and the three version numbers are fixed when the
  extension is compiled. They are the parameter \<open>B\<close> of the front ends. A resampler
  takes the heap and the source pointer and returns the new surface's pointer, or
  \<open>None\<close> for \<open>NULL\<close>, with the heap it leaves. The C \<open>int smooth\<close> receives the raw
  \<open>VALUE\<close>; the resampler sees whether it is non-zero.
\<close>

record backend =
  HAVE_ROTOZOOMXY :: bool
  SDL_GFXPRIMITIVES_MAJOR :: nat
  SDL_GFXPRIMITIVES_MINOR :: nat
  SDL_GFXPRIMITIVES_MICRO :: nat
  rotozoomSurface :: "heap \<Rightarrow> nat \<Rightarrow> real \<Rightarrow> real \<Rightarrow> bool \<Rightarrow> nat option \<times> heap"
  rotozoomSurfaceXY :: "heap \<Rightarrow> nat \<Rightarrow> real \<Rightarrow> real \<Rightarrow> real \<Rightarrow> bool \<Rightarrow> nat option \<times> heap"
  zoomSurface :: "heap \<Rightarrow> nat \<Rightarrow> real \<Rightarrow> real \<Rightarrow> bool \<Rightarrow> nat option \<times> heap"
  rotozoomSurfaceSize :: "int \<Rightarrow> int \<Rightarrow> real \<Rightarrow> real \<Rightarrow> int \<times> int"
  rotozoomSurfaceSizeXY :: "int \<Rightarrow> int \<Rightarrow> real \<Rightarrow> real \<Rightarrow> real \<Rightarrow> int \<times> int"
  zoomSurfaceSize :: "int \<Rightarrow> int \<Rightarrow> real \<Rightarrow> real \<Rightarrow> int \<times> int"

text \<open>An exception raised inside a conversion leaves the function at once.\<close>

definition attempt :: "error + 'a \<Rightarrow> ('a \<Rightarrow> error + 'b) \<Rightarrow> error + 'b" where
  "attempt x f = (case x of Inl e \<Rightarrow> Inl e | Inr v \<Rightarrow> f v)"

definition attempt_in :: "heap \<Rightarrow> error + 'a \<Rightarrow> ('a \<Rightarrow> (error + 'b) \<times> heap) \<Rightarrow> (error + 'b) \<times> heap" where
  "attempt_in hp x f = (case x of Inl e \<Rightarrow> (Inl e, hp) | Inr v \<Rightarrow> f v)"

definition wrap_result :: "nat option \<times> heap \<Rightarrow> (error + nat) \<times> heap" where
  "wrap_result r =
     (case r of
        (None, hp1) \<Rightarrow> (Inl SDLError_could_not_rotozoom, hp1)
      | (Some dst, hp1) \<Rightarrow> (Inr dst, hp1))"

definition rbgm_transform_rotozoom ::
  "backend \<Rightarrow> heap \<Rightarrow> VALUE list \<Rightarrow> nat \<Rightarrow> (error + nat) \<times> heap" where
  "rbgm_transform_rotozoom B hp argv self =
     (let argc = length argv in
      if argc < 3 then (Inl (ArgError_wrong_number argc 3), hp)
      else
        let src = self in
        attempt_in hp (NUM2DBL (argv ! 0)) (\<lambda>angle.
        let smooth = (if argc > 2 then \<not> VALUE_is_zero (argv ! 2) else False) in
        if rb_type (argv ! 1) = T_ARRAY then
          (if HAVE_ROTOZOOMXY B then
             attempt_in hp (attempt (rb_ary_entry (argv ! 1) 0) NUM2DBL) (\<lambda>zoomx.
             attempt_in hp (attempt (rb_ary_entry (argv ! 1) 1) NUM2DBL) (\<lambda>zoomy.
             wrap_result (rotozoomSurfaceXY B hp src angle zoomx zoomy smooth)))
           else
             (Inl (SDLError_no_rotozoomxy (SDL_GFXPRIMITIVES_MAJOR B)
                     (SDL_GFXPRIMITIVES_MINOR B) (SDL_GFXPRIMITIVES_MICRO B)), hp))
        else if FIXNUM_P (argv ! 1) \<or> rb_type (argv ! 1) = T_FLOAT then
          attempt_in hp (NUM2DBL (argv ! 1)) (\<lambda>zoomx.
          if \<not> HAVE_ROTOZOOMXY B \<and> zoomx < 0 then
            (Inl (SDLError_negative_zoom (SDL_GFXPRIMITIVES_MAJOR B)
                    (SDL_GFXPRIMITIVES_MINOR B) (SDL_GFXPRIMITIVES_MICRO B)), hp)
          else wrap_result (rotozoomSurface B hp src angle zoomx smooth))
        else (Inl ArgError_wrong_zoom_type, hp)))"

text \<open>
  \<open>rbgm_transform_rzsize\<close> is registered as \<open>rotozoom_size\<close>. It touches no surface, so
  it takes no heap; \<open>Qnil\<close> is its "not supported" answer.
\<close>

definition rbgm_transform_rzsize :: "backend \<Rightarrow> nat \<Rightarrow> VALUE list \<Rightarrow> error + VALUE" where
  "rbgm_transform_rzsize B ary argv =
     (let argc = length argv in
      if argc < 3 then Inl (ArgError_wrong_number argc 3)
      else
        attempt (attempt (rb_ary_entry (argv ! 0) 0) NUM2INT) (\<lambda>w.
        attempt (attempt (rb_ary_entry (argv ! 0) 0) NUM2INT) (\<lambda>h.
        attempt (NUM2DBL (argv ! 1)) (\<lambda>angle.
        if rb_type (argv ! 2) = T_ARRAY then
          (if HAVE_ROTOZOOMXY B then
             attempt (attempt (rb_ary_entry (argv ! 1) 0) NUM2DBL) (\<lambda>zoomx.
             attempt (attempt (rb_ary_entry (argv ! 1) 1) NUM2DBL) (\<lambda>zoomy.
             case rotozoomSurfaceSizeXY B w h angle zoomx zoomy of
               (dstw, dsth) \<Rightarrow> Inr (rb_ary_new3 ary [INT2NUM dstw, INT2NUM dsth])))
           else Inr Qnil)
        else if FIXNUM_P (argv ! 1) \<or> rb_type (argv ! 1) = T_FLOAT then
          attempt (NUM2DBL (argv ! 1)) (\<lambda>zoomx.
          if \<not> HAVE_ROTOZOOMXY B \<and> zoomx < 0 then Inr Qnil
          else
            case rotozoomSurfaceSize B w h angle zoomx of
              (dstw, dsth) \<Rightarrow> Inr (rb_ary_new3 ary [INT2NUM dstw, INT2NUM dsth]))
        else Inl ArgError_wrong_zoom_type))))"

text \<open>The zoom factors of \<open>zoom\<close> and \<open>zoom_size\<close>, read from the argument \<open>z\<close>.\<close>

definition zoom_factors :: "VALUE \<Rightarrow> error + real \<times> real" where
  "zoom_factors z =
     (if rb_type z = T_ARRAY then
        attempt (attempt (rb_ary_entry z 0) NUM2DBL) (\<lambda>zoomx.
        attempt (attempt (rb_ary_entry z 1) NUM2DBL) (\<lambda>zoomy. Inr (zoomx, zoomy)))
      else if FIXNUM_P z \<or> rb_type z = T_FLOAT then
        attempt (NUM2DBL z) (\<lambda>zoomx. Inr (zoomx, zoomx))
      else Inl ArgError_wrong_zoom_type)"

definition rbgm_transform_zoom ::
  "backend \<Rightarrow> heap \<Rightarrow> VALUE list \<Rightarrow> nat \<Rightarrow> (error + nat) \<times> heap" where
  "rbgm_transform_zoom B hp argv self =
     (let argc = length argv in
      if argc < 2 then (Inl (ArgError_wrong_number argc 1), hp)
      else
        let src = self in
        attempt_in hp (zoom_factors (argv ! 0)) (\<lambda>(zoomx, zoomy).
        let smooth = (if argc > 1 then \<not> VALUE_is_zero (argv ! 1) else False) in
        wrap_result (zoomSurface B hp src zoomx zoomy smooth)))"

definition rbgm_transform_zoomsize :: "backend \<Rightarrow> nat \<Rightarrow> VALUE list \<Rightarrow> error + VALUE" where
  "rbgm_transform_zoomsize B ary argv =
     (let argc = length argv in
      if argc < 3 then Inl (ArgError_wrong_number argc 3)
      else
        attempt (attempt (rb_ary_entry (argv ! 0) 0) NUM2INT) (\<lambda>w.
        attempt (attempt (rb_ary_entry (argv ! 0) 0) NUM2INT) (\<lambda>h.
        attempt (zoom_factors (argv ! 1)) (\<lambda>(zoomx, zoomy).
        case zoomSurfaceSize B w h zoomx zoomy of
          (dstw, dsth) \<Rightarrow> Inr (rb_ary_new3 ary [INT2NUM dstw, INT2NUM dsth])))))"

section \<open>Notions used to state the properties\<close>

text \<open>The Ruby value of a boolean flag.\<close>

definition bool_VALUE :: "bool \<Rightarrow> VALUE" where
  "bool_VALUE b = (if b then Qtrue else Qfalse)"

text \<open>
  SDL's invariants of a surface: the two depth fields agree, a row of pixels fits
  into the pitch, and the buffer holds \<open>surf_h\<close> rows.
\<close>

definition wf_surface :: "SDL_Surface \<Rightarrow> bool" where
  "wf_surface s =
     (BytesPerPixel (surf_format s) = (BitsPerPixel (surf_format s) + 7) div 8 \<and>
      surf_w s * BytesPerPixel (surf_format s) \<le> surf_pitch s \<and>
      surf_pitch s * surf_h s \<le> length (surf_pixels s))"

text \<open>The used bytes of row \<open>y\<close>: the first \<open>surf_w * BytesPerPixel\<close> bytes.\<close>

definition used_row :: "SDL_Surface \<Rightarrow> nat \<Rightarrow> Uint8 list" where
  "used_row s y =
     take (surf_w s * BytesPerPixel (surf_format s)) (drop (y * surf_pitch s) (surf_pixels s))"

text \<open>The bytes of the pixel in column \<open>x\<close> of row \<open>y\<close>, and the pixels of row \<open>y\<close> from left to right.\<close>

definition pixel_at :: "SDL_Surface \<Rightarrow> nat \<Rightarrow> nat \<Rightarrow> Uint8 list" where
  "pixel_at s x y =
     take (BytesPerPixel (surf_format s))
       (drop (y * surf_pitch s + x * BytesPerPixel (surf_format s)) (surf_pixels s))"

definition row_pixels :: "SDL_Surface \<Rightarrow> nat \<Rightarrow> Uint8 list list" where
  "row_pixels s y = map (\<lambda>x. pixel_at s x y) [0..<surf_w s]"

text \<open>
  The four-case mapping of a flip, from \<open>s\<close> to \<open>d\<close>: the same dimensions; without the
  horizontal flag the used bytes of a row are those of the source row, with it the
  pixels of a row are those of the source row in reverse order; the source row of
  row \<open>y\<close> is \<open>y\<close>, or \<open>surf_h s - 1 - y\<close> with the vertical flag.
\<close>

definition flipped_from :: "bool \<Rightarrow> bool \<Rightarrow> SDL_Surface \<Rightarrow> SDL_Surface \<Rightarrow> bool" where
  "flipped_from horizontal vertical s d =
     (surf_w d = surf_w s \<and> surf_h d = surf_h s \<and>
      (\<forall>y < surf_h s.
         if horizontal
         then row_pixels d y = rev (row_pixels s (if vertical then surf_h s - 1 - y else y))
         else used_row d y = used_row s (if vertical then surf_h s - 1 - y else y)))"

text \<open>
  Byte column \<open>c\<close> of a row of \<open>sw\<close> pixels of \<open>k\<close> bytes, after the pixels are put in
  reverse order: byte \<open>c mod k\<close> of pixel \<open>sw - 1 - c div k\<close>.
\<close>

definition rev_col :: "nat \<Rightarrow> nat \<Rightarrow> nat \<Rightarrow> nat" where
  "rev_col k sw c = (sw - 1 - c div k) * k + c mod k"

text \<open>The bytes of a list of 32-bit pixel words, in the byte order of \<open>poke32\<close>.\<close>

definition bytes_of_words32 :: "Uint32 list \<Rightarrow> Uint8 list" where
  "bytes_of_words32 ws =
     concat (map (\<lambda>v. [ucast v, ucast (drop_bit 8 v), ucast (drop_bit 16 v), ucast (drop_bit 24 v)]) ws)"

text \<open>
  Instances for the closed examples. \<open>sdl_pitch\<close> is the pitch rule of SDL 1.2 (rows padded to a multiple of
  four bytes) with an allocation that succeeds. \<open>copy_backend\<close> is a resampler that
  returns a copy of its source and predicts the source's size, whatever the angle and
  the zoom; it has no separate X/Y zoom.
\<close>

definition sdl_pitch :: allocator where
  "sdl_pitch width height depth = Some (((width * ((depth + 7) div 8) + 3) div 4) * 4)"

definition copy_backend :: backend where
  "copy_backend =
     \<lparr>HAVE_ROTOZOOMXY = False,
      SDL_GFXPRIMITIVES_MAJOR = 2, SDL_GFXPRIMITIVES_MINOR = 0, SDL_GFXPRIMITIVES_MICRO = 12,
      rotozoomSurface = (\<lambda>hp src angle zoom smooth. (Some (length hp), hp @ [hp ! src])),
      rotozoomSurfaceXY = (\<lambda>hp src angle zoomx zoomy smooth. (Some (length hp), hp @ [hp ! src])),
      zoomSurface = (\<lambda>hp src zoomx zoomy smooth. (Some (length hp), hp @ [hp ! src])),
      rotozoomSurfaceSize = (\<lambda>w h angle zoom. (w, h)),
      rotozoomSurfaceSizeXY = (\<lambda>w h angle zoomx zoomy. (w, h)),
      zoomSurfaceSize = (\<lambda>w h zoomx zoomy. (w, h))\<rparr>"

text \<open>A surface of the given size and pixel size, with no palette, flags or padding beyond \<open>p\<close>.\<close>

definition plain_surface :: "nat \<Rightarrow> nat \<Rightarrow> nat \<Rightarrow> nat \<Rightarrow> Uint8 list \<Rightarrow> SDL_Surface" where
  "plain_surface width height bpp p px =
     \<lparr>surf_flags = 0,
      surf_format = \<lparr>palette = None, BitsPerPixel = 8 * bpp, BytesPerPixel = bpp,
                     Rmask = 0, Gmask = 0, Bmask = 0, Amask = 0, colorkey = 0\<rparr>,
      surf_w = width, surf_h = height, surf_pitch = p, surf_pixels = px\<rparr>"

text \<open>
  The sources of the scenarios: 4 by 2 pixels of four bytes with pitch 16 and the pixel
  words 1 to 8; 2 by 1 pixels of three bytes; a surface whose pixels have eight bytes.
\<close>

definition S1_src :: SDL_Surface where
  "S1_src = plain_surface 4 2 4 16 (bytes_of_words32 [0x01, 0x02, 0x03, 0x04, 0x05, 0x06, 0x07, 0x08])"

definition S4_src :: "Uint8 \<Rightarrow> Uint8 \<Rightarrow> Uint8 \<Rightarrow> Uint8 \<Rightarrow> Uint8 \<Rightarrow> Uint8 \<Rightarrow> SDL_Surface" where
  "S4_src A0 A1 A2 B0 B1 B2 = plain_surface 2 1 3 6 [A0, A1, A2, B0, B1, B2]"

definition S5_src :: SDL_Surface where
  "S5_src = plain_surface 1 1 8 8 [1, 2, 3, 4, 5, 6, 7, 8]"

section \<open>The raw int of a VALUE\<close>

lemma VALUE_is_zero_Qfalse [simp]: "VALUE_is_zero Qfalse"
  by (simp add: VALUE_is_zero_def)

lemma VALUE_is_zero_Qtrue [simp]: "\<not> VALUE_is_zero Qtrue"
  by (simp add: VALUE_is_zero_def)

lemma VALUE_is_zero_Qnil [simp]: "\<not> VALUE_is_zero Qnil"
  by (simp add: VALUE_is_zero_def)


lemma VALUE_is_zero_bool [simp]: "VALUE_is_zero (bool_VALUE b) \<longleftrightarrow> \<not> b"
  by (simp add: bool_VALUE_def)

section \<open>Loops, copies and words\<close>

lemma for_loop_rule:
  assumes "P i s"
    and "\<And>j t. i \<le> j \<Longrightarrow> j < n \<Longrightarrow> P j t \<Longrightarrow> P (Suc j) (body j t)"
    and "i \<le> n"
  shows "P n (for_loop i n body s)"
  using assms
proof (induction i n body s rule: for_loop.induct)
  case (1 i n body s)
  show ?case
  proof (cases "i < n")
    case True
    have "P n (for_loop (Suc i) n body (body i s))"
    proof (rule "1.IH" [OF True])
      show "P (Suc i) (body i s)" using "1.prems" True by simp
      show "\<And>j t. Suc i \<le> j \<Longrightarrow> j < n \<Longrightarrow> P j t \<Longrightarrow> P (Suc j) (body j t)"
        using "1.prems"(2) by simp
      show "Suc i \<le> n" using True by simp
    qed
    then show ?thesis using True by (simp add: for_loop.simps [of i])
  next
    case False
    with "1.prems" have "i = n" by simp
    then show ?thesis using "1.prems"(1) by (simp add: for_loop.simps [of n])
  qed
qed

lemma length_memcpy: "length (memcpy dstpix d srcpix s n) = length dstpix"
  by (induction n arbitrary: dstpix d s) simp_all

lemma nth_memcpy:
  "i < length dstpix \<Longrightarrow>
   memcpy dstpix d srcpix s n ! i =
     (if d \<le> i \<and> i < d + n then srcpix ! (s + (i - d)) else dstpix ! i)"
proof (induction n arbitrary: dstpix d s)
  case 0
  then show ?case by auto
next
  case (Suc n)
  have len: "i < length (dstpix[d := srcpix ! s])"
    using Suc.prems by simp
  have step: "memcpy dstpix d srcpix s (Suc n) ! i =
      (if Suc d \<le> i \<and> i < Suc d + n then srcpix ! (Suc s + (i - Suc d))
       else dstpix[d := srcpix ! s] ! i)"
    using Suc.IH [OF len] by simp
  show ?case
  proof (cases "Suc d \<le> i")
    case True
    then have "Suc s + (i - Suc d) = s + (i - d)" by arith
    with True step show ?thesis by simp
  next
    case False
    then show ?thesis using step Suc.prems by (cases "i = d") simp_all
  qed
qed

lemma byte0_16: "(ucast (ucast (a::8 word) OR push_bit 8 (ucast (b::8 word)) :: 16 word) :: 8 word) = a"
  by (rule bit_word_eqI) (auto simp: bit_simps dest: bit_imp_le_length)

lemma byte1_16: "(ucast (drop_bit 8 (ucast (a::8 word) OR push_bit 8 (ucast (b::8 word)) :: 16 word)) :: 8 word) = b"
  by (rule bit_word_eqI) (auto simp: bit_simps dest: bit_imp_le_length)

lemma byte0_32: "(ucast (ucast (a::8 word) OR push_bit 8 (ucast (b::8 word)) OR push_bit 16 (ucast (c::8 word)) OR push_bit 24 (ucast (d::8 word)) :: 32 word) :: 8 word) = a"
  by (rule bit_word_eqI) (auto simp: bit_simps dest: bit_imp_le_length)

lemma byte1_32: "(ucast (drop_bit 8 (ucast (a::8 word) OR push_bit 8 (ucast (b::8 word)) OR push_bit 16 (ucast (c::8 word)) OR push_bit 24 (ucast (d::8 word)) :: 32 word)) :: 8 word) = b"
  by (rule bit_word_eqI) (auto simp: bit_simps dest: bit_imp_le_length)

lemma byte2_32: "(ucast (drop_bit 16 (ucast (a::8 word) OR push_bit 8 (ucast (b::8 word)) OR push_bit 16 (ucast (c::8 word)) OR push_bit 24 (ucast (d::8 word)) :: 32 word)) :: 8 word) = c"
  by (rule bit_word_eqI) (auto simp: bit_simps dest: bit_imp_le_length)

lemma byte3_32: "(ucast (drop_bit 24 (ucast (a::8 word) OR push_bit 8 (ucast (b::8 word)) OR push_bit 16 (ucast (c::8 word)) OR push_bit 24 (ucast (d::8 word)) :: 32 word)) :: 8 word) = d"
  by (rule bit_word_eqI) (auto simp: bit_simps dest: bit_imp_le_length)

lemma div_mod_block:
  assumes "j * k \<le> (c::nat)" and "c < j * k + k"
  shows "c div k = j" and "c mod k = c - j * k"
proof -
  define r where "r = c - j * k"
  have c: "c = r + j * k" and r: "r < k"
    using assms by (simp_all add: r_def)
  show "c div k = j" using c r by simp
  show "c mod k = c - j * k" using c r by simp
qed

section \<open>One row, pixels in reverse order\<close>

lemma row_loop_inv:
  fixes body :: "nat \<Rightarrow> int \<times> int \<times> Uint8 list \<Rightarrow> int \<times> int \<times> Uint8 list"
  assumes k: "0 < k"
    and body: "\<And>loopx dst src dp. 0 \<le> dst \<Longrightarrow> 0 \<le> src \<Longrightarrow>
       body loopx (dst, src, dp) = (dst + int k, src - int k, memcpy dp (nat dst) srcpix (nat src) k)"
  shows "length (snd (snd (for_loop 0 sw body (int d0, int srow + int k * (int sw - 1), dp0)))) = length dp0 \<and>
    (\<forall>i<length dp0.
       snd (snd (for_loop 0 sw body (int d0, int srow + int k * (int sw - 1), dp0))) ! i =
         (if d0 \<le> i \<and> i < d0 + sw * k then srcpix ! (srow + rev_col k sw (i - d0)) else dp0 ! i))"
proof -
  let ?P = "\<lambda>j (dst, src, dp).
      dst = int d0 + int j * int k \<and> src = int srow + int k * (int sw - 1 - int j) \<and>
      length dp = length dp0 \<and>
      (\<forall>i<length dp0. dp ! i =
         (if d0 \<le> i \<and> i < d0 + j * k then srcpix ! (srow + rev_col k sw (i - d0)) else dp0 ! i))"
  obtain a b c where r: "for_loop 0 sw body (int d0, int srow + int k * (int sw - 1), dp0) = (a, b, c)"
    by (cases "for_loop 0 sw body (int d0, int srow + int k * (int sw - 1), dp0)")
  have "?P sw (for_loop 0 sw body (int d0, int srow + int k * (int sw - 1), dp0))"
  proof (rule for_loop_rule [where P = ?P])
    show "?P 0 (int d0, int srow + int k * (int sw - 1), dp0)" by auto
  next
    fix j t
    assume j: "j < sw" and inv: "?P j t"
    obtain dst src dp where t: "t = (dst, src, dp)" by (cases t)
    from inv t have dst: "dst = int d0 + int j * int k"
      and src: "src = int srow + int k * (int sw - 1 - int j)"
      and len: "length dp = length dp0"
      and old: "\<forall>i<length dp0. dp ! i =
         (if d0 \<le> i \<and> i < d0 + j * k then srcpix ! (srow + rev_col k sw (i - d0)) else dp0 ! i)"
      by simp_all
    have dst_nat: "dst = int (d0 + j * k)" using dst by simp
    then have ndst: "nat dst = d0 + j * k" by (simp only: nat_int)
    have "int sw - 1 - int j = int (sw - 1 - j)" using j by simp
    then have src_nat: "src = int (srow + k * (sw - 1 - j))" using src by simp
    then have nsrc: "nat src = srow + k * (sw - 1 - j)" by (simp only: nat_int)
    have nonneg: "0 \<le> dst" "0 \<le> src"
      using dst_nat src_nat by simp_all
    have new: "memcpy dp (d0 + j * k) srcpix (srow + k * (sw - 1 - j)) k ! i =
         (if d0 \<le> i \<and> i < d0 + Suc j * k then srcpix ! (srow + rev_col k sw (i - d0)) else dp0 ! i)"
      if i: "i < length dp0" for i
    proof -
      have i': "i < length dp" using i len by simp
      note m = nth_memcpy [OF i', of "d0 + j * k" srcpix "srow + k * (sw - 1 - j)" k]
      show ?thesis
      proof (cases "d0 + j * k \<le> i \<and> i < d0 + j * k + k")
        case True
        then have "j * k \<le> i - d0" and "i - d0 < j * k + k" by auto
        then have "(i - d0) div k = j" and "(i - d0) mod k = (i - d0) - j * k"
          by (rule div_mod_block)+
        then have "rev_col k sw (i - d0) = k * (sw - 1 - j) + (i - (d0 + j * k))"
          by (simp add: rev_col_def mult.commute)
        moreover have "d0 \<le> i \<and> i < d0 + Suc j * k" using True by auto
        ultimately show ?thesis using True m by (simp add: add.assoc)
      next
        case False
        then have eq: "memcpy dp (d0 + j * k) srcpix (srow + k * (sw - 1 - j)) k ! i = dp ! i"
          using m by auto
        have "(d0 \<le> i \<and> i < d0 + Suc j * k) = (d0 \<le> i \<and> i < d0 + j * k)"
          using False by auto
        then show ?thesis using eq old i by simp
      qed
    qed
    have d': "dst + int k = int d0 + int (Suc j) * int k"
      using dst by (simp add: algebra_simps)
    have s': "src - int k = int srow + int k * (int sw - 1 - int (Suc j))"
      using src by (simp add: algebra_simps)
    have "?P (Suc j) (dst + int k, src - int k, memcpy dp (d0 + j * k) srcpix (srow + k * (sw - 1 - j)) k)"
      unfolding prod.case using d' s' len new by (simp only: length_memcpy) blast
    then show "?P (Suc j) (body j t)"
      unfolding t body [OF nonneg] ndst nsrc .
  qed simp
  then have "length c = length dp0 \<and>
      (\<forall>i<length dp0. c ! i =
         (if d0 \<le> i \<and> i < d0 + sw * k then srcpix ! (srow + rev_col k sw (i - d0)) else dp0 ! i))"
    unfolding r prod.case by blast
  then show ?thesis
    unfolding r by simp
qed

lemma poke8_as_memcpy: "poke8 dp dst (peek8 srcpix src) = memcpy dp (nat dst) srcpix (nat src) 1"
  by (simp add: poke8_def peek8_def)

lemma poke16_as_memcpy: "poke16 dp dst (peek16 srcpix src) = memcpy dp (nat dst) srcpix (nat src) 2"
  unfolding poke16_def peek16_def byte0_16 byte1_16 by (simp add: numeral_2_eq_2)

lemma poke32_as_memcpy: "poke32 dp dst (peek32 srcpix src) = memcpy dp (nat dst) srcpix (nat src) 4"
  unfolding poke32_def peek32_def byte0_32 byte1_32 byte2_32 byte3_32 by (simp add: eval_nat_numeral)

lemma three_pokes_as_memcpy:
  "0 \<le> dst \<Longrightarrow> 0 \<le> src \<Longrightarrow>
   poke8 (poke8 (poke8 dp dst (peek8 srcpix src)) (dst + 1) (peek8 srcpix (src + 1)))
     (dst + 2) (peek8 srcpix (src + 2)) = memcpy dp (nat dst) srcpix (nat src) 3"
  by (simp add: poke8_def peek8_def eval_nat_numeral nat_add_distrib)



lemma row_Uint8_inv:
  "length (row_Uint8 srcpix sw (int d0) (int srow + int sw - 1) dp0) = length dp0 \<and>
    (\<forall>i<length dp0.
       row_Uint8 srcpix sw (int d0) (int srow + int sw - 1) dp0 ! i =
         (if d0 \<le> i \<and> i < d0 + sw * 1 then srcpix ! (srow + rev_col 1 sw (i - d0)) else dp0 ! i))"
proof -
  let ?B = "\<lambda>(loopx::nat) (dst, src, dstpix). (dst + 1, src - 1, poke8 dstpix dst (peek8 srcpix src))"
  have main: "length (snd (snd (for_loop 0 sw ?B (int d0, int srow + int 1 * (int sw - 1), dp0)))) = length dp0 \<and>
    (\<forall>i<length dp0.
       snd (snd (for_loop 0 sw ?B (int d0, int srow + int 1 * (int sw - 1), dp0))) ! i =
         (if d0 \<le> i \<and> i < d0 + sw * 1 then srcpix ! (srow + rev_col 1 sw (i - d0)) else dp0 ! i))"
    by (rule row_loop_inv) (simp_all add: poke8_as_memcpy)
  have eq: "int srow + int sw - 1 = int srow + int 1 * (int sw - 1)"
    by simp
  show ?thesis
    unfolding row_Uint8_def eq by (rule main)
qed

lemma row_Uint16_inv:
  "length (row_Uint16 srcpix sw (int d0) (int srow + 2 * (int sw - 1)) dp0) = length dp0 \<and>
    (\<forall>i<length dp0.
       row_Uint16 srcpix sw (int d0) (int srow + 2 * (int sw - 1)) dp0 ! i =
         (if d0 \<le> i \<and> i < d0 + sw * 2 then srcpix ! (srow + rev_col 2 sw (i - d0)) else dp0 ! i))"
proof -
  let ?B = "\<lambda>(loopx::nat) (dst, src, dstpix). (dst + 2, src - 2, poke16 dstpix dst (peek16 srcpix src))"
  have main: "length (snd (snd (for_loop 0 sw ?B (int d0, int srow + int 2 * (int sw - 1), dp0)))) = length dp0 \<and>
    (\<forall>i<length dp0.
       snd (snd (for_loop 0 sw ?B (int d0, int srow + int 2 * (int sw - 1), dp0))) ! i =
         (if d0 \<le> i \<and> i < d0 + sw * 2 then srcpix ! (srow + rev_col 2 sw (i - d0)) else dp0 ! i))"
    by (rule row_loop_inv) (simp_all add: poke16_as_memcpy)
  have eq: "int srow + 2 * (int sw - 1) = int srow + int 2 * (int sw - 1)"
    by simp
  show ?thesis
    unfolding row_Uint16_def eq by (rule main)
qed

lemma row_Uint32_inv:
  "length (row_Uint32 srcpix sw (int d0) (int srow + 4 * (int sw - 1)) dp0) = length dp0 \<and>
    (\<forall>i<length dp0.
       row_Uint32 srcpix sw (int d0) (int srow + 4 * (int sw - 1)) dp0 ! i =
         (if d0 \<le> i \<and> i < d0 + sw * 4 then srcpix ! (srow + rev_col 4 sw (i - d0)) else dp0 ! i))"
proof -
  let ?B = "\<lambda>(loopx::nat) (dst, src, dstpix). (dst + 4, src - 4, poke32 dstpix dst (peek32 srcpix src))"
  have main: "length (snd (snd (for_loop 0 sw ?B (int d0, int srow + int 4 * (int sw - 1), dp0)))) = length dp0 \<and>
    (\<forall>i<length dp0.
       snd (snd (for_loop 0 sw ?B (int d0, int srow + int 4 * (int sw - 1), dp0))) ! i =
         (if d0 \<le> i \<and> i < d0 + sw * 4 then srcpix ! (srow + rev_col 4 sw (i - d0)) else dp0 ! i))"
    by (rule row_loop_inv) (simp_all add: poke32_as_memcpy)
  have eq: "int srow + 4 * (int sw - 1) = int srow + int 4 * (int sw - 1)"
    by simp
  show ?thesis
    unfolding row_Uint32_def eq by (rule main)
qed

lemma row_3bytes_inv:
  "length (row_3bytes srcpix sw (int d0) (int srow + int sw * 3 - 3) dp0) = length dp0 \<and>
    (\<forall>i<length dp0.
       row_3bytes srcpix sw (int d0) (int srow + int sw * 3 - 3) dp0 ! i =
         (if d0 \<le> i \<and> i < d0 + sw * 3 then srcpix ! (srow + rev_col 3 sw (i - d0)) else dp0 ! i))"
proof -
  let ?B = "\<lambda>(loopx::nat) (dst, src, dstpix). (dst + 3, src - 3,
           poke8 (poke8 (poke8 dstpix dst (peek8 srcpix src))
                    (dst + 1) (peek8 srcpix (src + 1)))
             (dst + 2) (peek8 srcpix (src + 2)))"
  have main: "length (snd (snd (for_loop 0 sw ?B (int d0, int srow + int 3 * (int sw - 1), dp0)))) = length dp0 \<and>
    (\<forall>i<length dp0.
       snd (snd (for_loop 0 sw ?B (int d0, int srow + int 3 * (int sw - 1), dp0))) ! i =
         (if d0 \<le> i \<and> i < d0 + sw * 3 then srcpix ! (srow + rev_col 3 sw (i - d0)) else dp0 ! i))"
    by (rule row_loop_inv) (simp_all add: three_pokes_as_memcpy)
  have eq: "int srow + int sw * 3 - 3 = int srow + int 3 * (int sw - 1)"
    by simp
  show ?thesis
    unfolding row_3bytes_def eq by (rule main)
qed

section \<open>All rows\<close>

lemma rows_loop_inv:
  fixes rowop :: "nat \<Rightarrow> Uint8 list \<Rightarrow> Uint8 list"
  assumes rowop: "\<And>y dp. length (rowop y dp) = length dp \<and>
      (\<forall>i<length dp. rowop y dp ! i =
         (if y * dpitch \<le> i \<and> i < y * dpitch + n then srcpix ! (f y (i - y * dpitch)) else dp ! i))"
    and n: "n \<le> dpitch"
  shows "length (for_loop 0 sh rowop dstpix) = length dstpix \<and>
    (\<forall>y < sh. \<forall>c < n. y * dpitch + c < length dstpix \<longrightarrow>
       for_loop 0 sh rowop dstpix ! (y * dpitch + c) = srcpix ! (f y c))"
proof -
  let ?P = "\<lambda>Y dp. length dp = length dstpix \<and>
    (\<forall>y < Y. \<forall>c < n. y * dpitch + c < length dstpix \<longrightarrow> dp ! (y * dpitch + c) = srcpix ! (f y c))"
  have "?P sh (for_loop 0 sh rowop dstpix)"
  proof (rule for_loop_rule [where P = ?P])
    show "?P 0 dstpix" by simp
  next
    fix Y dp
    assume inv: "?P Y dp"
    then have len: "length dp = length dstpix" by simp
    have "rowop Y dp ! (y * dpitch + c) = srcpix ! (f y c)"
      if y: "y < Suc Y" and c: "c < n" and i: "y * dpitch + c < length dstpix" for y c
    proof -
      have i': "y * dpitch + c < length dp" using i len by simp
      from rowop [of Y dp] i'
      have r: "rowop Y dp ! (y * dpitch + c) =
         (if Y * dpitch \<le> y * dpitch + c \<and> y * dpitch + c < Y * dpitch + n
          then srcpix ! (f Y (y * dpitch + c - Y * dpitch)) else dp ! (y * dpitch + c))"
        by blast
      show ?thesis
      proof (cases "y = Y")
        case True
        then show ?thesis using r c by simp
      next
        case False
        with y have "Suc y \<le> Y" by simp
        then have "Suc y * dpitch \<le> Y * dpitch" by (rule mult_le_mono1)
        then have "y * dpitch + c < Y * dpitch" using c n by simp
        then have "rowop Y dp ! (y * dpitch + c) = dp ! (y * dpitch + c)" using r by simp
        moreover have "y < Y" using False y by simp
        ultimately show ?thesis using inv c i by simp
      qed
    qed
    then show "?P (Suc Y) (rowop Y dp)"
      using rowop [of Y dp] len by simp
  qed simp
  then show ?thesis by simp
qed

lemma rows_memcpy:
  assumes n: "n \<le> dpitch"
  shows "length (for_loop 0 sh (\<lambda>loopy dp. memcpy dp (loopy * dpitch) srcpix (sy loopy * spitch) n) dstpix)
       = length dstpix \<and>
    (\<forall>y < sh. \<forall>c < n. y * dpitch + c < length dstpix \<longrightarrow>
       for_loop 0 sh (\<lambda>loopy dp. memcpy dp (loopy * dpitch) srcpix (sy loopy * spitch) n) dstpix
         ! (y * dpitch + c) = srcpix ! (sy y * spitch + c))"
  by (rule rows_loop_inv [where f = "\<lambda>y c. sy y * spitch + c", OF _ n])
     (simp add: length_memcpy nth_memcpy)

lemma rows_Uint8:
  assumes n: "sw * 1 \<le> dpitch"
  shows "length (for_loop 0 sh (\<lambda>loopy dp. row_Uint8 srcpix sw (int (loopy * dpitch))
             (int (sy loopy * spitch) + int sw - 1) dp) dstpix) = length dstpix \<and>
    (\<forall>y < sh. \<forall>c < sw * 1. y * dpitch + c < length dstpix \<longrightarrow>
       for_loop 0 sh (\<lambda>loopy dp. row_Uint8 srcpix sw (int (loopy * dpitch))
             (int (sy loopy * spitch) + int sw - 1) dp) dstpix
         ! (y * dpitch + c) = srcpix ! (sy y * spitch + rev_col 1 sw c))"
  by (rule rows_loop_inv [where f = "\<lambda>y c. sy y * spitch + rev_col 1 sw c", OF _ n])
     (rule row_Uint8_inv)

lemma rows_Uint16:
  assumes n: "sw * 2 \<le> dpitch"
  shows "length (for_loop 0 sh (\<lambda>loopy dp. row_Uint16 srcpix sw (int (loopy * dpitch))
             (int (sy loopy * spitch) + 2 * (int sw - 1)) dp) dstpix) = length dstpix \<and>
    (\<forall>y < sh. \<forall>c < sw * 2. y * dpitch + c < length dstpix \<longrightarrow>
       for_loop 0 sh (\<lambda>loopy dp. row_Uint16 srcpix sw (int (loopy * dpitch))
             (int (sy loopy * spitch) + 2 * (int sw - 1)) dp) dstpix
         ! (y * dpitch + c) = srcpix ! (sy y * spitch + rev_col 2 sw c))"
  by (rule rows_loop_inv [where f = "\<lambda>y c. sy y * spitch + rev_col 2 sw c", OF _ n])
     (rule row_Uint16_inv)

lemma rows_Uint32:
  assumes n: "sw * 4 \<le> dpitch"
  shows "length (for_loop 0 sh (\<lambda>loopy dp. row_Uint32 srcpix sw (int (loopy * dpitch))
             (int (sy loopy * spitch) + 4 * (int sw - 1)) dp) dstpix) = length dstpix \<and>
    (\<forall>y < sh. \<forall>c < sw * 4. y * dpitch + c < length dstpix \<longrightarrow>
       for_loop 0 sh (\<lambda>loopy dp. row_Uint32 srcpix sw (int (loopy * dpitch))
             (int (sy loopy * spitch) + 4 * (int sw - 1)) dp) dstpix
         ! (y * dpitch + c) = srcpix ! (sy y * spitch + rev_col 4 sw c))"
  by (rule rows_loop_inv [where f = "\<lambda>y c. sy y * spitch + rev_col 4 sw c", OF _ n])
     (rule row_Uint32_inv)

lemma rows_3bytes:
  assumes n: "sw * 3 \<le> dpitch"
  shows "length (for_loop 0 sh (\<lambda>loopy dp. row_3bytes srcpix sw (int (loopy * dpitch))
             (int (sy loopy * spitch) + int sw * 3 - 3) dp) dstpix) = length dstpix \<and>
    (\<forall>y < sh. \<forall>c < sw * 3. y * dpitch + c < length dstpix \<longrightarrow>
       for_loop 0 sh (\<lambda>loopy dp. row_3bytes srcpix sw (int (loopy * dpitch))
             (int (sy loopy * spitch) + int sw * 3 - 3) dp) dstpix
         ! (y * dpitch + c) = srcpix ! (sy y * spitch + rev_col 3 sw c))"
  by (rule rows_loop_inv [where f = "\<lambda>y c. sy y * spitch + rev_col 3 sw c", OF _ n])
     (rule row_3bytes_inv)

section \<open>The pixel-filling phase and the allocator\<close>

lemma flip_pixels_inv:
  assumes bpp: "bpp = 1 \<or> bpp = 2 \<or> bpp = 3 \<or> bpp = 4" and n: "sw * bpp \<le> dstpitch"
  shows "length (flip_pixels xaxis yaxis sw sh bpp srcpitch dstpitch srcpix dstpix) = length dstpix \<and>
    (\<forall>y < sh. \<forall>c < sw * bpp. y * dstpitch + c < length dstpix \<longrightarrow>
       flip_pixels xaxis yaxis sw sh bpp srcpitch dstpitch srcpix dstpix ! (y * dstpitch + c) =
         srcpix ! ((if VALUE_is_zero yaxis then y else sh - 1 - y) * srcpitch
                    + (if VALUE_is_zero xaxis then c else rev_col bpp sw c)))"
proof (cases "VALUE_is_zero xaxis")
  case True
  show ?thesis
  proof (cases "VALUE_is_zero yaxis")
    case yz: True
    show ?thesis
      using rows_memcpy [OF n, of sh srcpix "\<lambda>y. y" srcpitch dstpix] True yz
      by (simp add: flip_pixels_def)
  next
    case yz: False
    show ?thesis
      using rows_memcpy [OF n, of sh srcpix "\<lambda>y. sh - 1 - y" srcpitch dstpix] True yz
      by (simp add: flip_pixels_def)
  qed
next
  case False
  show ?thesis
  proof (cases "VALUE_is_zero yaxis")
    case yz: True
    from bpp consider "bpp = 1" | "bpp = 2" | "bpp = 3" | "bpp = 4" by blast
    then show ?thesis
    proof cases
      case 1
      then show ?thesis
        using rows_Uint8 [of sw dstpitch sh srcpix "\<lambda>y. y" srcpitch dstpix] n False yz
        by (simp add: flip_pixels_def)
    next
      case 2
      then show ?thesis
        using rows_Uint16 [of sw dstpitch sh srcpix "\<lambda>y. y" srcpitch dstpix] n False yz
        by (simp add: flip_pixels_def)
    next
      case 3
      then show ?thesis
        using rows_3bytes [of sw dstpitch sh srcpix "\<lambda>y. y" srcpitch dstpix] n False yz
        by (simp add: flip_pixels_def)
    next
      case 4
      then show ?thesis
        using rows_Uint32 [of sw dstpitch sh srcpix "\<lambda>y. y" srcpitch dstpix] n False yz
        by (simp add: flip_pixels_def)
    qed
  next
    case yz: False
    from bpp consider "bpp = 1" | "bpp = 2" | "bpp = 3" | "bpp = 4" by blast
    then show ?thesis
    proof cases
      case 1
      then show ?thesis
        using rows_Uint8 [of sw dstpitch sh srcpix "\<lambda>y. sh - 1 - y" srcpitch dstpix] n False yz
        by (simp add: flip_pixels_def)
    next
      case 2
      then show ?thesis
        using rows_Uint16 [of sw dstpitch sh srcpix "\<lambda>y. sh - 1 - y" srcpitch dstpix] n False yz
        by (simp add: flip_pixels_def)
    next
      case 3
      then show ?thesis
        using rows_3bytes [of sw dstpitch sh srcpix "\<lambda>y. sh - 1 - y" srcpitch dstpix] n False yz
        by (simp add: flip_pixels_def)
    next
      case 4
      then show ?thesis
        using rows_Uint32 [of sw dstpitch sh srcpix "\<lambda>y. sh - 1 - y" srcpitch dstpix] n False yz
        by (simp add: flip_pixels_def)
    qed
  qed
qed

lemma newsurf_fromsurf_ok:
  assumes "0 < BytesPerPixel (surf_format (hp ! surf))"
    and "BytesPerPixel (surf_format (hp ! surf)) \<le> 4"
    and "A width height (BitsPerPixel (surf_format (hp ! surf))) = Some p"
  shows "\<exists>d. newsurf_fromsurf A hp surf width height = (Inr (length hp), hp @ [d]) \<and>
     surf_w d = width \<and> surf_h d = height \<and> surf_pitch d = p \<and>
     surf_pixels d = replicate (p * height) 0 \<and>
     BitsPerPixel (surf_format d) = BitsPerPixel (surf_format (hp ! surf)) \<and>
     BytesPerPixel (surf_format d) = (BitsPerPixel (surf_format (hp ! surf)) + 7) div 8"
  using assms
  by (auto simp: newsurf_fromsurf_def SDL_CreateRGBSurface_def SDL_SetColors_def
        SDL_SetColorKey_def Let_def)

section \<open>What a flip returns\<close>

lemma rev_col_pixel:
  assumes "b < k" and "x < sw"
  shows "rev_col k sw (x * k + b) = (sw - 1 - x) * k + b"
  using assms by (simp add: rev_col_def)

lemma rev_col_less:
  assumes k: "0 < k" and c: "c < sw * k"
  shows "rev_col k sw c < sw * k"
proof -
  have x: "c div k < sw" using c k by (simp add: less_mult_imp_div_less)
  have "rev_col k sw c < (sw - 1 - c div k) * k + k"
    using k by (simp add: rev_col_def)
  also have "\<dots> = Suc (sw - 1 - c div k) * k" by simp
  also have "\<dots> \<le> sw * k"
    using x by (intro mult_le_mono1) simp
  finally show ?thesis .
qed

lemma rev_col_involution:
  assumes k: "0 < k" and c: "c < sw * k"
  shows "rev_col k sw (rev_col k sw c) = c"
proof -
  have x: "c div k < sw" using c k by (simp add: less_mult_imp_div_less)
  have b: "c mod k < k" using k by simp
  have "rev_col k sw c = (sw - 1 - c div k) * k + c mod k" by (simp add: rev_col_def)
  moreover have "sw - 1 - c div k < sw" using x by simp
  ultimately have "rev_col k sw (rev_col k sw c) = (sw - 1 - (sw - 1 - c div k)) * k + c mod k"
    using rev_col_pixel [OF b, of "sw - 1 - c div k" sw] by simp
  also have "sw - 1 - (sw - 1 - c div k) = c div k" using x by simp
  finally show ?thesis by simp
qed

lemma row_index_bound:
  assumes "y < (h::nat)" and "c < n" and "n \<le> p"
  shows "y * p + c < p * h"
proof -
  have "y * p + c < Suc y * p" using assms by simp
  also have "\<dots> \<le> h * p" using assms by (intro mult_le_mono1) simp
  finally show ?thesis by (simp add: mult.commute)
qed

lemma flip_result:
  assumes self: "self < length hp"
    and bpp: "0 < BytesPerPixel (surf_format (hp ! self))" "BytesPerPixel (surf_format (hp ! self)) \<le> 4"
    and wf: "wf_surface (hp ! self)"
    and A: "A (surf_w (hp ! self)) (surf_h (hp ! self)) (BitsPerPixel (surf_format (hp ! self))) = Some p"
    and p: "surf_w (hp ! self) * BytesPerPixel (surf_format (hp ! self)) \<le> p"
  shows "\<exists>d. rbgm_transform_flip A hp (xv # yv # rest) self = (Inr (length hp), hp @ [d]) \<and>
     surf_w d = surf_w (hp ! self) \<and> surf_h d = surf_h (hp ! self) \<and> surf_pitch d = p \<and>
     BitsPerPixel (surf_format d) = BitsPerPixel (surf_format (hp ! self)) \<and>
     BytesPerPixel (surf_format d) = BytesPerPixel (surf_format (hp ! self)) \<and>
     length (surf_pixels d) = p * surf_h (hp ! self) \<and> wf_surface d \<and>
     (\<forall>y < surf_h (hp ! self). \<forall>c < surf_w (hp ! self) * BytesPerPixel (surf_format (hp ! self)).
        surf_pixels d ! (y * p + c) =
          surf_pixels (hp ! self) !
            ((if VALUE_is_zero yv then y else surf_h (hp ! self) - 1 - y) * surf_pitch (hp ! self)
              + (if VALUE_is_zero xv then c
                 else rev_col (BytesPerPixel (surf_format (hp ! self))) (surf_w (hp ! self)) c)))"
proof -
  let ?s = "hp ! self"
  let ?k = "BytesPerPixel (surf_format ?s)"
  obtain d0 where n: "newsurf_fromsurf A hp self (surf_w ?s) (surf_h ?s) = (Inr (length hp), hp @ [d0])"
    and d0: "surf_w d0 = surf_w ?s" "surf_h d0 = surf_h ?s" "surf_pitch d0 = p"
      "surf_pixels d0 = replicate (p * surf_h ?s) 0"
      "BitsPerPixel (surf_format d0) = BitsPerPixel (surf_format ?s)"
      "BytesPerPixel (surf_format d0) = (BitsPerPixel (surf_format ?s) + 7) div 8"
    using newsurf_fromsurf_ok [of hp self A "surf_w ?s" "surf_h ?s" p] bpp A by blast
  define filled where "filled = flip_pixels xv yv (surf_w ?s) (surf_h ?s) ?k (surf_pitch ?s) p
       (surf_pixels ?s) (replicate (p * surf_h ?s) 0)"
  have res: "rbgm_transform_flip A hp (xv # yv # rest) self
      = (Inr (length hp), hp @ [d0\<lparr>surf_pixels := filled\<rparr>])"
    using self n d0 by (simp add: rbgm_transform_flip_def Let_def nth_append filled_def)
  have k: "?k = 1 \<or> ?k = 2 \<or> ?k = 3 \<or> ?k = 4" using bpp by arith
  note inv = flip_pixels_inv [OF k p, of xv yv "surf_h ?s" "surf_pitch ?s" "surf_pixels ?s"
      "replicate (p * surf_h ?s) 0"]
  have len: "length filled = p * surf_h ?s"
    using inv by (simp add: filled_def)
  have nth: "filled ! (y * p + c) = surf_pixels ?s !
            ((if VALUE_is_zero yv then y else surf_h ?s - 1 - y) * surf_pitch ?s
              + (if VALUE_is_zero xv then c else rev_col ?k (surf_w ?s) c))"
    if y: "y < surf_h ?s" and c: "c < surf_w ?s * ?k" for y c
  proof -
    have "y * p + c < p * surf_h ?s" using y c p by (rule row_index_bound)
    then show ?thesis using inv y c unfolding filled_def by simp
  qed
  have kk: "(BitsPerPixel (surf_format ?s) + 7) div 8 = ?k"
    using wf by (simp add: wf_surface_def)
  have "wf_surface (d0\<lparr>surf_pixels := filled\<rparr>)"
    using p by (simp add: wf_surface_def d0 len kk)
  then show ?thesis
    by (intro exI [of _ "d0\<lparr>surf_pixels := filled\<rparr>"]) (simp add: res d0 len nth kk)
qed


lemma row_in_bounds:
  assumes "y < (h::nat)" and "n \<le> p" and "p * h \<le> len"
  shows "y * p + n \<le> len"
proof -
  have "y * p + n \<le> Suc y * p" using assms by simp
  also have "\<dots> \<le> h * p" using assms by (intro mult_le_mono1) simp
  finally show ?thesis using assms by (simp add: mult.commute)
qed

lemma pixel_in_bounds:
  assumes "x < (w::nat)" and "y < h" and "w * k \<le> p" and "p * h \<le> len"
  shows "y * p + x * k + k \<le> len"
proof -
  have "x * k + k = Suc x * k" by simp
  also have "\<dots> \<le> w * k" using assms by (intro mult_le_mono1) simp
  finally have "x * k + k \<le> p" using assms by simp
  with row_in_bounds [OF assms(2) _ assms(4), of "x * k + k"] show ?thesis
    by (simp add: add.assoc)
qed

lemma length_used_row:
  assumes "y < surf_h s" and "surf_w s * BytesPerPixel (surf_format s) \<le> surf_pitch s"
    and "surf_pitch s * surf_h s \<le> length (surf_pixels s)"
  shows "length (used_row s y) = surf_w s * BytesPerPixel (surf_format s)"
  using row_in_bounds [OF assms] by (simp add: used_row_def)

lemma nth_used_row:
  assumes "y < surf_h s" and "surf_w s * BytesPerPixel (surf_format s) \<le> surf_pitch s"
    and "surf_pitch s * surf_h s \<le> length (surf_pixels s)"
    and "c < surf_w s * BytesPerPixel (surf_format s)"
  shows "used_row s y ! c = surf_pixels s ! (y * surf_pitch s + c)"
  using row_in_bounds [OF assms(1-3)] assms(4) by (simp add: used_row_def)

lemma length_pixel_at:
  assumes "x < surf_w s" and "y < surf_h s"
    and "surf_w s * BytesPerPixel (surf_format s) \<le> surf_pitch s"
    and "surf_pitch s * surf_h s \<le> length (surf_pixels s)"
  shows "length (pixel_at s x y) = BytesPerPixel (surf_format s)"
  using pixel_in_bounds [OF assms] by (simp add: pixel_at_def)

lemma nth_pixel_at:
  assumes "x < surf_w s" and "y < surf_h s"
    and "surf_w s * BytesPerPixel (surf_format s) \<le> surf_pitch s"
    and "surf_pitch s * surf_h s \<le> length (surf_pixels s)"
    and "b < BytesPerPixel (surf_format s)"
  shows "pixel_at s x y ! b = surf_pixels s ! (y * surf_pitch s + (x * BytesPerPixel (surf_format s) + b))"
  using pixel_in_bounds [OF assms(1-4)] assms(5) by (simp add: pixel_at_def add.assoc)

lemma pixel_column_bound:
  assumes "x < (w::nat)" and "b < k"
  shows "x * k + b < w * k"
proof -
  have "x * k + b < Suc x * k" using assms by simp
  also have "\<dots> \<le> w * k" using assms by (intro mult_le_mono1) simp
  finally show ?thesis .
qed

lemma rev_map_upt: "rev (map f [0..<n]) = map (\<lambda>i. f (n - 1 - i)) [0..<n]"
  by (rule nth_equalityI) (simp_all add: rev_nth)


lemma flip_rows:
  assumes self: "self < length hp"
    and bpp: "0 < BytesPerPixel (surf_format (hp ! self))" "BytesPerPixel (surf_format (hp ! self)) \<le> 4"
    and wf: "wf_surface (hp ! self)"
    and A: "A (surf_w (hp ! self)) (surf_h (hp ! self)) (BitsPerPixel (surf_format (hp ! self))) = Some p"
    and p: "surf_w (hp ! self) * BytesPerPixel (surf_format (hp ! self)) \<le> p"
  shows "\<exists>d. rbgm_transform_flip A hp (xv # yv # rest) self = (Inr (length hp), hp @ [d]) \<and>
     wf_surface d \<and> surf_pitch d = p \<and>
     BitsPerPixel (surf_format d) = BitsPerPixel (surf_format (hp ! self)) \<and>
     BytesPerPixel (surf_format d) = BytesPerPixel (surf_format (hp ! self)) \<and>
     flipped_from (\<not> VALUE_is_zero xv) (\<not> VALUE_is_zero yv) (hp ! self) d"
proof -
  let ?s = "hp ! self"
  let ?k = "BytesPerPixel (surf_format ?s)"
  let ?w = "surf_w ?s" and ?h = "surf_h ?s"
  let ?sy = "\<lambda>y. if VALUE_is_zero yv then y else ?h - 1 - y"
  obtain d where res: "rbgm_transform_flip A hp (xv # yv # rest) self = (Inr (length hp), hp @ [d])"
    and dw: "surf_w d = ?w" and dh: "surf_h d = ?h" and dp: "surf_pitch d = p"
    and dbits: "BitsPerPixel (surf_format d) = BitsPerPixel (surf_format ?s)"
    and dk: "BytesPerPixel (surf_format d) = ?k"
    and dlen: "length (surf_pixels d) = p * ?h"
    and wfd: "wf_surface d"
    and bytes: "\<And>y c. y < ?h \<Longrightarrow> c < ?w * ?k \<Longrightarrow>
        surf_pixels d ! (y * p + c) =
          surf_pixels ?s ! (?sy y * surf_pitch ?s + (if VALUE_is_zero xv then c else rev_col ?k ?w c))"
    using flip_result [of self hp A p xv yv rest] assms by blast
  have sfit: "?w * ?k \<le> surf_pitch ?s" and slen: "surf_pitch ?s * ?h \<le> length (surf_pixels ?s)"
    and sbits: "?k = (BitsPerPixel (surf_format ?s) + 7) div 8"
    using wf unfolding wf_surface_def by blast+
  have dfit: "surf_w d * BytesPerPixel (surf_format d) \<le> surf_pitch d"
    and dlen': "surf_pitch d * surf_h d \<le> length (surf_pixels d)"
    using p by (simp_all add: dw dh dp dk dlen)
  have sy: "?sy y < ?h" if "y < ?h" for y using that by simp
  have rows: "if \<not> VALUE_is_zero xv
         then row_pixels d y = rev (row_pixels ?s (if \<not> VALUE_is_zero yv then ?h - 1 - y else y))
         else used_row d y = used_row ?s (if \<not> VALUE_is_zero yv then ?h - 1 - y else y)"
    if y: "y < ?h" for y
  proof (cases "VALUE_is_zero xv")
    case True
    have yd: "y < surf_h d" using y dh by simp
    have "used_row d y = used_row ?s (?sy y)"
    proof (rule nth_equalityI)
      show "length (used_row d y) = length (used_row ?s (?sy y))"
        using length_used_row [OF yd dfit dlen'] length_used_row [OF sy [OF y] sfit slen]
        by (simp add: dw dk)
    next
      fix c assume "c < length (used_row d y)"
      then have c: "c < ?w * ?k"
        using length_used_row [OF yd dfit dlen'] by (simp add: dw dk)
      then have cd: "c < surf_w d * BytesPerPixel (surf_format d)" by (simp add: dw dk)
      show "used_row d y ! c = used_row ?s (?sy y) ! c"
        using nth_used_row [OF yd dfit dlen' cd] nth_used_row [OF sy [OF y] sfit slen c]
          bytes [OF y c] True
        by (simp add: dp)
    qed
    then show ?thesis using True by simp
  next
    case False
    have "pixel_at d x y = pixel_at ?s (?w - 1 - x) (?sy y)" if x: "x < ?w" for x
    proof (rule nth_equalityI)
      have xd: "x < surf_w d" and yd: "y < surf_h d" using x y dw dh by simp_all
      have x': "?w - 1 - x < ?w" using x by simp
      show len: "length (pixel_at d x y) = length (pixel_at ?s (?w - 1 - x) (?sy y))"
        using length_pixel_at [OF xd yd dfit dlen'] length_pixel_at [OF x' sy [OF y] sfit slen]
        by (simp add: dk)
      fix b assume "b < length (pixel_at d x y)"
      then have b: "b < ?k"
        using length_pixel_at [OF xd yd dfit dlen'] by (simp add: dk)
      then have bd: "b < BytesPerPixel (surf_format d)" by (simp add: dk)
      have c: "x * ?k + b < ?w * ?k" using x b by (rule pixel_column_bound)
      show "pixel_at d x y ! b = pixel_at ?s (?w - 1 - x) (?sy y) ! b"
        using nth_pixel_at [OF xd yd dfit dlen' bd] nth_pixel_at [OF x' sy [OF y] sfit slen b]
          bytes [OF y c] False rev_col_pixel [OF b x]
        by (simp add: dp dk)
    qed
    then have "row_pixels d y = rev (row_pixels ?s (?sy y))"
      by (simp add: row_pixels_def rev_map_upt dw)
    then show ?thesis using False by simp
  qed
  have "flipped_from (\<not> VALUE_is_zero xv) (\<not> VALUE_is_zero yv) ?s d"
    unfolding flipped_from_def using rows dw dh by blast
  then show ?thesis
    using res wfd dp dbits dk by blast
qed

section \<open>Errors and the heap outside the new surface\<close>


lemma NUM2DBL_error: "NUM2DBL v = Inl e \<Longrightarrow> e = TypeError"
  by (cases v) simp_all

lemma rb_ary_entry_error: "rb_ary_entry v i = Inl e \<Longrightarrow> e = Invalid_access"
  by (cases v) simp_all

lemma entry_NUM2DBL_error:
  "attempt (rb_ary_entry v i) NUM2DBL = Inl e \<Longrightarrow> e = TypeError \<or> e = Invalid_access"
  by (auto simp: attempt_def split: sum.splits dest: NUM2DBL_error rb_ary_entry_error)

lemma zoom_factors_error:
  "zoom_factors z = Inl e \<Longrightarrow> e = TypeError \<or> e = Invalid_access \<or> e = ArgError_wrong_zoom_type"
  unfolding zoom_factors_def
  by (auto simp: attempt_def split: if_splits sum.splits
        dest: NUM2DBL_error rb_ary_entry_error)

lemma wrap_result_error:
  "wrap_result r = (Inl e, hp1) \<Longrightarrow> e = SDLError_could_not_rotozoom"
  by (auto simp: wrap_result_def split: prod.splits option.splits)


lemma zoom_hands_over:
  assumes "2 \<le> length argv" and "zoom_factors (argv ! 0) = Inr (zoomx, zoomy)"
  shows "rbgm_transform_zoom B hp argv self
        = wrap_result (zoomSurface B hp self zoomx zoomy (\<not> VALUE_is_zero (argv ! 1)))"
  using assms by (simp add: rbgm_transform_zoom_def attempt_in_def)

lemma NUM2DBL_number:
  assumes "NUM2DBL v = Inr x"
  shows "rb_type v \<noteq> T_ARRAY \<and> (FIXNUM_P v \<or> rb_type v = T_FLOAT)"
  using assms by (cases v) simp_all

lemma rotozoom_hands_over:
  assumes "3 \<le> length argv" and "NUM2DBL (argv ! 0) = Inr angle"
    and "NUM2DBL (argv ! 1) = Inr zoom" and "HAVE_ROTOZOOMXY B \<or> 0 \<le> zoom"
  shows "rbgm_transform_rotozoom B hp argv self
        = wrap_result (rotozoomSurface B hp self angle zoom (\<not> VALUE_is_zero (argv ! 2)))"
  using assms NUM2DBL_number [OF assms(3)]
  by (auto simp: rbgm_transform_rotozoom_def attempt_in_def)

lemma rotozoomXY_hands_over:
  assumes "3 \<le> length argv" and "NUM2DBL (argv ! 0) = Inr angle"
    and "HAVE_ROTOZOOMXY B" and "rb_type (argv ! 1) = T_ARRAY"
    and "zoom_factors (argv ! 1) = Inr (zoomx, zoomy)"
  shows "rbgm_transform_rotozoom B hp argv self
        = wrap_result (rotozoomSurfaceXY B hp self angle zoomx zoomy (\<not> VALUE_is_zero (argv ! 2)))"
  using assms
  by (auto simp: rbgm_transform_rotozoom_def attempt_in_def zoom_factors_def attempt_def
        split: sum.splits)

lemma zoom_no_depth_check:
  "fst (rbgm_transform_zoom B hp argv self) \<noteq> Inl SDLError_unsupported_depth"
proof
  assume a: "fst (rbgm_transform_zoom B hp argv self) = Inl SDLError_unsupported_depth"
  then obtain hp1 where r: "rbgm_transform_zoom B hp argv self = (Inl SDLError_unsupported_depth, hp1)"
    by (cases "rbgm_transform_zoom B hp argv self") simp
  then show False
    by (auto simp: rbgm_transform_zoom_def attempt_in_def Let_def
          split: if_splits sum.splits prod.splits
          dest!: zoom_factors_error wrap_result_error)
qed

lemma rotozoom_no_depth_check:
  "fst (rbgm_transform_rotozoom B hp argv self) \<noteq> Inl SDLError_unsupported_depth"
proof
  assume a: "fst (rbgm_transform_rotozoom B hp argv self) = Inl SDLError_unsupported_depth"
  then obtain hp1 where r: "rbgm_transform_rotozoom B hp argv self = (Inl SDLError_unsupported_depth, hp1)"
    by (cases "rbgm_transform_rotozoom B hp argv self") simp
  then show False
    by (auto simp: rbgm_transform_rotozoom_def attempt_in_def Let_def
          split: if_splits sum.splits prod.splits
          dest!: NUM2DBL_error entry_NUM2DBL_error wrap_result_error)
qed


lemma flip_rejects_depth:
  assumes "2 \<le> length argv"
    and "BytesPerPixel (surf_format (hp ! self)) = 0 \<or> 4 < BytesPerPixel (surf_format (hp ! self))"
  shows "rbgm_transform_flip A hp argv self = (Inl SDLError_unsupported_depth, hp)"
  using assms by (auto simp: rbgm_transform_flip_def newsurf_fromsurf_def Let_def)





section \<open>The claims\<close>

text \<open>
  C1. For a well-formed source of one to four bytes per pixel and an allocation that
  succeeds with a pitch that holds a row, \<open>flip\<close> with boolean flags returns a new
  surface of the same dimensions whose rows follow the four-case mapping: without the
  horizontal flag row \<open>y\<close> holds the bytes of source row \<open>y\<close> (of row \<open>h - 1 - y\<close> with
  the vertical flag), with it the pixels of that source row in reverse order. On the
  4 by 2 surface of scenario S1 the three flips give the pixel words of S1, S2 and S3.
\<close>

theorem flip_four_case_mapping:
  "(\<forall>A hp self p horizontal vertical.
      self < length hp \<longrightarrow> wf_surface (hp ! self) \<longrightarrow>
      0 < BytesPerPixel (surf_format (hp ! self)) \<longrightarrow>
      BytesPerPixel (surf_format (hp ! self)) \<le> 4 \<longrightarrow>
      A (surf_w (hp ! self)) (surf_h (hp ! self)) (BitsPerPixel (surf_format (hp ! self))) = Some p \<longrightarrow>
      surf_w (hp ! self) * BytesPerPixel (surf_format (hp ! self)) \<le> p \<longrightarrow>
      (\<exists>d. rbgm_transform_flip A hp [bool_VALUE horizontal, bool_VALUE vertical] self
              = (Inr (length hp), hp @ [d]) \<and>
           flipped_from horizontal vertical (hp ! self) d))
   \<and> rbgm_transform_flip sdl_pitch [S1_src] [bool_VALUE True, bool_VALUE False] 0
       = (Inr 1, [S1_src, S1_src\<lparr>surf_pixels :=
            bytes_of_words32 [0x04, 0x03, 0x02, 0x01, 0x08, 0x07, 0x06, 0x05]\<rparr>])
   \<and> rbgm_transform_flip sdl_pitch [S1_src] [bool_VALUE False, bool_VALUE True] 0
       = (Inr 1, [S1_src, S1_src\<lparr>surf_pixels :=
            bytes_of_words32 [0x05, 0x06, 0x07, 0x08, 0x01, 0x02, 0x03, 0x04]\<rparr>])
   \<and> rbgm_transform_flip sdl_pitch [S1_src] [bool_VALUE True, bool_VALUE True] 0
       = (Inr 1, [S1_src, S1_src\<lparr>surf_pixels :=
            bytes_of_words32 [0x08, 0x07, 0x06, 0x05, 0x04, 0x03, 0x02, 0x01]\<rparr>])"
proof (intro conjI allI impI)
  fix A hp self p horizontal vertical
  assume a: "self < length hp" "wf_surface (hp ! self)"
    "0 < BytesPerPixel (surf_format (hp ! self))" "BytesPerPixel (surf_format (hp ! self)) \<le> 4"
    "A (surf_w (hp ! self)) (surf_h (hp ! self)) (BitsPerPixel (surf_format (hp ! self))) = Some p"
    "surf_w (hp ! self) * BytesPerPixel (surf_format (hp ! self)) \<le> p"
  have "\<not> VALUE_is_zero (bool_VALUE horizontal) = horizontal"
    and "\<not> VALUE_is_zero (bool_VALUE vertical) = vertical"
    by (simp_all add: bool_VALUE_def)
  then show "\<exists>d. rbgm_transform_flip A hp [bool_VALUE horizontal, bool_VALUE vertical] self
              = (Inr (length hp), hp @ [d]) \<and> flipped_from horizontal vertical (hp ! self) d"
    using flip_rows [of self hp A p "bool_VALUE horizontal" "bool_VALUE vertical" "[]"] a
    by auto
qed (code_simp+)

theorem flip_four_case_mapping_witness:
  "(0::nat) < length [S1_src] \<and> wf_surface ([S1_src] ! 0) \<and>
   0 < BytesPerPixel (surf_format ([S1_src] ! 0)) \<and>
   BytesPerPixel (surf_format ([S1_src] ! 0)) \<le> 4 \<and>
   sdl_pitch (surf_w ([S1_src] ! 0)) (surf_h ([S1_src] ! 0))
     (BitsPerPixel (surf_format ([S1_src] ! 0))) = Some 16 \<and>
   surf_w ([S1_src] ! 0) * BytesPerPixel (surf_format ([S1_src] ! 0)) \<le> 16 \<and>
   (\<exists>d. rbgm_transform_flip sdl_pitch [S1_src] [bool_VALUE True, bool_VALUE False] 0
          = (Inr (length [S1_src]), [S1_src] @ [d]) \<and>
        flipped_from True False ([S1_src] ! 0) d)"
proof -
  have h: "(0::nat) < length [S1_src]" "wf_surface ([S1_src] ! 0)"
    "0 < BytesPerPixel (surf_format ([S1_src] ! 0))"
    "BytesPerPixel (surf_format ([S1_src] ! 0)) \<le> 4"
    "sdl_pitch (surf_w ([S1_src] ! 0)) (surf_h ([S1_src] ! 0))
       (BitsPerPixel (surf_format ([S1_src] ! 0))) = Some 16"
    "surf_w ([S1_src] ! 0) * BytesPerPixel (surf_format ([S1_src] ! 0)) \<le> 16"
    by (simp_all add: S1_src_def plain_surface_def wf_surface_def sdl_pitch_def bytes_of_words32_def)
  from flip_four_case_mapping [THEN conjunct1, rule_format,
      where A = sdl_pitch and hp = "[S1_src]" and self = 0 and p = 16
        and horizontal = True and vertical = False] h
  show ?thesis by blast
qed

text \<open>
  C2. On a well-formed source of three bytes per pixel a horizontal flip writes, for
  every row \<open>y\<close>, every column \<open>x\<close> and \<open>b = 0, 1, 2\<close>, byte \<open>b\<close> of source pixel
  \<open>w - 1 - x\<close> to byte \<open>b\<close> of destination pixel \<open>x\<close>: the destination advances by three
  bytes per pixel, the source steps back by three, and the byte order inside a pixel
  is kept. On the 2 by 1 surface \<open>[A0, A1, A2, B0, B1, B2]\<close> of scenario S4 the used
  row of the result is \<open>[B0, B1, B2, A0, A1, A2]\<close>.
\<close>

theorem flip_24bit_keeps_byte_order:
  "(\<forall>A hp self p vertical.
      self < length hp \<longrightarrow> wf_surface (hp ! self) \<longrightarrow>
      BytesPerPixel (surf_format (hp ! self)) = 3 \<longrightarrow>
      A (surf_w (hp ! self)) (surf_h (hp ! self)) (BitsPerPixel (surf_format (hp ! self))) = Some p \<longrightarrow>
      surf_w (hp ! self) * 3 \<le> p \<longrightarrow>
      (\<exists>d. rbgm_transform_flip A hp [bool_VALUE True, bool_VALUE vertical] self
              = (Inr (length hp), hp @ [d]) \<and>
           surf_pitch d = p \<and>
           (\<forall>y < surf_h (hp ! self). \<forall>x < surf_w (hp ! self). \<forall>b < 3.
              surf_pixels d ! (y * p + (x * 3 + b)) =
                surf_pixels (hp ! self) !
                  ((if vertical then surf_h (hp ! self) - 1 - y else y) * surf_pitch (hp ! self)
                    + ((surf_w (hp ! self) - 1 - x) * 3 + b)))))
   \<and> (\<forall>A0 A1 A2 B0 B1 B2.
        fst (rbgm_transform_flip sdl_pitch [S4_src A0 A1 A2 B0 B1 B2]
               [bool_VALUE True, bool_VALUE False] 0) = Inr 1 \<and>
        used_row (snd (rbgm_transform_flip sdl_pitch [S4_src A0 A1 A2 B0 B1 B2]
               [bool_VALUE True, bool_VALUE False] 0) ! 1) 0 = [B0, B1, B2, A0, A1, A2])"
proof (intro conjI allI impI)
  fix A :: allocator and hp :: heap and self p :: nat and vertical :: bool
  let ?s = "hp ! self"
  assume a: "self < length hp" "wf_surface ?s" "BytesPerPixel (surf_format ?s) = 3"
    "A (surf_w ?s) (surf_h ?s) (BitsPerPixel (surf_format ?s)) = Some p" "surf_w ?s * 3 \<le> p"
  have v: "VALUE_is_zero (bool_VALUE vertical) = (\<not> vertical)"
    and t: "\<not> VALUE_is_zero (bool_VALUE True)"
    by (simp_all add: bool_VALUE_def)
  obtain d where res: "rbgm_transform_flip A hp [bool_VALUE True, bool_VALUE vertical] self
        = (Inr (length hp), hp @ [d])"
    and dp: "surf_pitch d = p"
    and bytes: "\<And>y c. y < surf_h ?s \<Longrightarrow> c < surf_w ?s * 3 \<Longrightarrow>
        surf_pixels d ! (y * p + c) =
          surf_pixels ?s ! ((if vertical then surf_h ?s - 1 - y else y) * surf_pitch ?s
              + rev_col 3 (surf_w ?s) c)"
    using flip_result [of self hp A p "bool_VALUE True" "bool_VALUE vertical" "[]"] a v t
    by auto
  have "surf_pixels d ! (y * p + (x * 3 + b)) =
      surf_pixels ?s ! ((if vertical then surf_h ?s - 1 - y else y) * surf_pitch ?s
          + ((surf_w ?s - 1 - x) * 3 + b))"
    if y: "y < surf_h ?s" and x: "x < surf_w ?s" and b: "b < 3" for y x b
    using bytes [OF y pixel_column_bound [OF x b]] rev_col_pixel [OF b x] by simp
  with res dp
  show "\<exists>d. rbgm_transform_flip A hp [bool_VALUE True, bool_VALUE vertical] self
              = (Inr (length hp), hp @ [d]) \<and>
           surf_pitch d = p \<and>
           (\<forall>y < surf_h ?s. \<forall>x < surf_w ?s. \<forall>b < 3.
              surf_pixels d ! (y * p + (x * 3 + b)) =
                surf_pixels ?s !
                  ((if vertical then surf_h ?s - 1 - y else y) * surf_pitch ?s
                    + ((surf_w ?s - 1 - x) * 3 + b)))"
    by blast
qed (code_simp+)

theorem flip_24bit_keeps_byte_order_witness:
  "(0::nat) < length [S4_src 10 11 12 20 21 22] \<and>
   wf_surface ([S4_src 10 11 12 20 21 22] ! 0) \<and>
   BytesPerPixel (surf_format ([S4_src 10 11 12 20 21 22] ! 0)) = 3 \<and>
   sdl_pitch (surf_w ([S4_src 10 11 12 20 21 22] ! 0)) (surf_h ([S4_src 10 11 12 20 21 22] ! 0))
     (BitsPerPixel (surf_format ([S4_src 10 11 12 20 21 22] ! 0))) = Some 8 \<and>
   surf_w ([S4_src 10 11 12 20 21 22] ! 0) * 3 \<le> 8 \<and>
   (\<exists>d. rbgm_transform_flip sdl_pitch [S4_src 10 11 12 20 21 22]
            [bool_VALUE True, bool_VALUE False] 0
          = (Inr (length [S4_src 10 11 12 20 21 22]), [S4_src 10 11 12 20 21 22] @ [d]) \<and>
        surf_pitch d = 8 \<and>
        (\<forall>y < surf_h ([S4_src 10 11 12 20 21 22] ! 0).
         \<forall>x < surf_w ([S4_src 10 11 12 20 21 22] ! 0). \<forall>b < 3.
           surf_pixels d ! (y * 8 + (x * 3 + b)) =
             surf_pixels ([S4_src 10 11 12 20 21 22] ! 0) !
               ((if False then surf_h ([S4_src 10 11 12 20 21 22] ! 0) - 1 - y else y)
                  * surf_pitch ([S4_src 10 11 12 20 21 22] ! 0)
                + ((surf_w ([S4_src 10 11 12 20 21 22] ! 0) - 1 - x) * 3 + b))))"
proof -
  have h: "(0::nat) < length [S4_src 10 11 12 20 21 22]"
    "wf_surface ([S4_src 10 11 12 20 21 22] ! 0)"
    "BytesPerPixel (surf_format ([S4_src 10 11 12 20 21 22] ! 0)) = 3"
    "sdl_pitch (surf_w ([S4_src 10 11 12 20 21 22] ! 0)) (surf_h ([S4_src 10 11 12 20 21 22] ! 0))
       (BitsPerPixel (surf_format ([S4_src 10 11 12 20 21 22] ! 0))) = Some 8"
    "surf_w ([S4_src 10 11 12 20 21 22] ! 0) * 3 \<le> 8"
    by (simp_all add: S4_src_def plain_surface_def wf_surface_def sdl_pitch_def)
  from flip_24bit_keeps_byte_order [THEN conjunct1, rule_format,
      where A = sdl_pitch and hp = "[S4_src 10 11 12 20 21 22]" and self = 0 and p = 8
        and vertical = False] h
  show ?thesis by blast
qed

text \<open>
  C3. Flip is an involution on the used pixels. For a well-formed source of one to
  four bytes per pixel and an allocation that succeeds, flipping with the flags
  \<open>(h, v)\<close> and flipping the result with the same flags both succeed, and the second
  result has the size and pixel size of the source and, in every row, the same first
  \<open>width * bytes_per_pixel\<close> bytes.
\<close>

theorem flip_involution:
  assumes self: "self < length hp"
    and wf: "wf_surface (hp ! self)"
    and bpp: "0 < BytesPerPixel (surf_format (hp ! self))" "BytesPerPixel (surf_format (hp ! self)) \<le> 4"
    and A: "A (surf_w (hp ! self)) (surf_h (hp ! self)) (BitsPerPixel (surf_format (hp ! self))) = Some p"
    and p: "surf_w (hp ! self) * BytesPerPixel (surf_format (hp ! self)) \<le> p"
  shows "\<exists>d1 d2.
     rbgm_transform_flip A hp [bool_VALUE horizontal, bool_VALUE vertical] self
       = (Inr (length hp), hp @ [d1]) \<and>
     rbgm_transform_flip A (hp @ [d1]) [bool_VALUE horizontal, bool_VALUE vertical] (length hp)
       = (Inr (Suc (length hp)), hp @ [d1, d2]) \<and>
     surf_w d2 = surf_w (hp ! self) \<and> surf_h d2 = surf_h (hp ! self) \<and>
     BytesPerPixel (surf_format d2) = BytesPerPixel (surf_format (hp ! self)) \<and>
     (\<forall>y < surf_h (hp ! self). used_row d2 y = used_row (hp ! self) y)"
proof -
  let ?s = "hp ! self"
  let ?k = "BytesPerPixel (surf_format ?s)"
  let ?w = "surf_w ?s" and ?h = "surf_h ?s"
  let ?xv = "bool_VALUE horizontal" and ?yv = "bool_VALUE vertical"
  let ?sy = "\<lambda>y. if VALUE_is_zero ?yv then y else ?h - 1 - y"
  let ?cx = "\<lambda>c. if VALUE_is_zero ?xv then c else rev_col ?k ?w c"
  obtain d1 where r1: "rbgm_transform_flip A hp [?xv, ?yv] self = (Inr (length hp), hp @ [d1])"
    and w1: "surf_w d1 = ?w" and h1: "surf_h d1 = ?h" and p1: "surf_pitch d1 = p"
    and bits1: "BitsPerPixel (surf_format d1) = BitsPerPixel (surf_format ?s)"
    and k1: "BytesPerPixel (surf_format d1) = ?k"
    and wf1: "wf_surface d1"
    and bytes1: "\<And>y c. y < ?h \<Longrightarrow> c < ?w * ?k \<Longrightarrow>
        surf_pixels d1 ! (y * p + c) = surf_pixels ?s ! (?sy y * surf_pitch ?s + ?cx c)"
    using flip_result [of self hp A p ?xv ?yv "[]"] assms by blast
  let ?hp1 = "hp @ [d1]"
  have s1: "?hp1 ! length hp = d1" by simp
  have pre: "length hp < length ?hp1" "wf_surface (?hp1 ! length hp)"
    "0 < BytesPerPixel (surf_format (?hp1 ! length hp))"
    "BytesPerPixel (surf_format (?hp1 ! length hp)) \<le> 4"
    "A (surf_w (?hp1 ! length hp)) (surf_h (?hp1 ! length hp))
       (BitsPerPixel (surf_format (?hp1 ! length hp))) = Some p"
    "surf_w (?hp1 ! length hp) * BytesPerPixel (surf_format (?hp1 ! length hp)) \<le> p"
    using bpp A p wf1 by (simp_all add: w1 h1 bits1 k1)
  obtain d2 where r2: "rbgm_transform_flip A ?hp1 [?xv, ?yv] (length hp)
        = (Inr (length ?hp1), ?hp1 @ [d2])"
    and w2: "surf_w d2 = ?w" and h2: "surf_h d2 = ?h" and p2: "surf_pitch d2 = p"
    and k2: "BytesPerPixel (surf_format d2) = ?k"
    and wf2: "wf_surface d2"
    and bytes2: "\<And>y c. y < ?h \<Longrightarrow> c < ?w * ?k \<Longrightarrow>
        surf_pixels d2 ! (y * p + c) = surf_pixels d1 ! (?sy y * p + ?cx c)"
    using flip_result [of "length hp" ?hp1 A p ?xv ?yv "[]"] pre
    unfolding s1 w1 h1 p1 bits1 k1 by blast
  have sfit: "?w * ?k \<le> surf_pitch ?s" and slen: "surf_pitch ?s * ?h \<le> length (surf_pixels ?s)"
    using wf unfolding wf_surface_def by blast+
  have dfit: "surf_w d2 * BytesPerPixel (surf_format d2) \<le> surf_pitch d2"
    and dlen: "surf_pitch d2 * surf_h d2 \<le> length (surf_pixels d2)"
    using wf2 unfolding wf_surface_def by blast+
  have sy: "?sy y < ?h" and sy2: "?sy (?sy y) = y" if "y < ?h" for y
    using that by simp_all
  have cx: "?cx c < ?w * ?k" and cx2: "?cx (?cx c) = c" if "c < ?w * ?k" for c
    using that bpp(1) by (simp_all add: rev_col_less rev_col_involution)
  have twice: "surf_pixels d2 ! (y * p + c) = surf_pixels ?s ! (y * surf_pitch ?s + c)"
    if y: "y < ?h" and c: "c < ?w * ?k" for y c
  proof -
    have "surf_pixels d2 ! (y * p + c) = surf_pixels d1 ! (?sy y * p + ?cx c)"
      using y c by (rule bytes2)
    also have "\<dots> = surf_pixels ?s ! (?sy (?sy y) * surf_pitch ?s + ?cx (?cx c))"
      using sy [OF y] cx [OF c] by (rule bytes1)
    finally show ?thesis
      unfolding sy2 [OF y] cx2 [OF c] .
  qed
  have "used_row d2 y = used_row ?s y" if y: "y < ?h" for y
  proof (rule nth_equalityI)
    have yd: "y < surf_h d2" using y h2 by simp
    show "length (used_row d2 y) = length (used_row ?s y)"
      using length_used_row [OF yd dfit dlen] length_used_row [OF y sfit slen]
      by (simp add: w2 k2)
    fix c assume "c < length (used_row d2 y)"
    then have c: "c < ?w * ?k"
      using length_used_row [OF yd dfit dlen] by (simp add: w2 k2)
    then have cd: "c < surf_w d2 * BytesPerPixel (surf_format d2)" by (simp add: w2 k2)
    show "used_row d2 y ! c = used_row ?s y ! c"
      using nth_used_row [OF yd dfit dlen cd] nth_used_row [OF y sfit slen c] twice [OF y c]
      by (simp add: p2)
  qed
  with r1 r2 w2 h2 k2 show ?thesis by auto
qed

theorem flip_involution_witness:
  "(0::nat) < length [S1_src] \<and> wf_surface ([S1_src] ! 0) \<and>
   0 < BytesPerPixel (surf_format ([S1_src] ! 0)) \<and>
   BytesPerPixel (surf_format ([S1_src] ! 0)) \<le> 4 \<and>
   sdl_pitch (surf_w ([S1_src] ! 0)) (surf_h ([S1_src] ! 0))
     (BitsPerPixel (surf_format ([S1_src] ! 0))) = Some 16 \<and>
   surf_w ([S1_src] ! 0) * BytesPerPixel (surf_format ([S1_src] ! 0)) \<le> 16 \<and>
   (\<exists>d1 d2.
     rbgm_transform_flip sdl_pitch [S1_src] [bool_VALUE True, bool_VALUE True] 0
       = (Inr (length [S1_src]), [S1_src] @ [d1]) \<and>
     rbgm_transform_flip sdl_pitch ([S1_src] @ [d1]) [bool_VALUE True, bool_VALUE True] (length [S1_src])
       = (Inr (Suc (length [S1_src])), [S1_src] @ [d1, d2]) \<and>
     surf_w d2 = surf_w ([S1_src] ! 0) \<and> surf_h d2 = surf_h ([S1_src] ! 0) \<and>
     BytesPerPixel (surf_format d2) = BytesPerPixel (surf_format ([S1_src] ! 0)) \<and>
     (\<forall>y < surf_h ([S1_src] ! 0). used_row d2 y = used_row ([S1_src] ! 0) y))"
proof -
  have h: "(0::nat) < length [S1_src]" "wf_surface ([S1_src] ! 0)"
    "0 < BytesPerPixel (surf_format ([S1_src] ! 0))"
    "BytesPerPixel (surf_format ([S1_src] ! 0)) \<le> 4"
    "sdl_pitch (surf_w ([S1_src] ! 0)) (surf_h ([S1_src] ! 0))
       (BitsPerPixel (surf_format ([S1_src] ! 0))) = Some 16"
    "surf_w ([S1_src] ! 0) * BytesPerPixel (surf_format ([S1_src] ! 0)) \<le> 16"
    by (simp_all add: S1_src_def plain_surface_def wf_surface_def sdl_pitch_def bytes_of_words32_def)
  from flip_involution [where A = sdl_pitch and hp = "[S1_src]" and self = 0 and p = 16
        and horizontal = True and vertical = True, OF h] h
  show ?thesis by blast
qed




text \<open>
  C5, as the code has it. \<open>flip\<close> called with its two arguments on a source whose
  \<open>BytesPerPixel\<close> is 0 or more than 4 raises the \<open>SDLError\<close> "unsupported Surface bit
  depth for transform" and leaves the heap as it was: nothing is allocated. \<open>zoom\<close> and
  \<open>rotozoom\<close> have no depth check. Whatever the source, a call of \<open>zoom\<close> with two
  arguments whose zoom argument gives the factors, and a call of \<open>rotozoom\<close> with three
  arguments, a numeric angle and either a scalar zoom (not negative unless the build has
  \<open>HAVE_ROTOZOOMXY\<close>) or, with \<open>HAVE_ROTOZOOMXY\<close>, a pair of factors, hands the source to
  the resampler and returns its answer: the new surface, or the \<open>SDLError\<close> "Could not
  rotozoom surface" when there is none. And no call of \<open>zoom\<close> or \<open>rotozoom\<close> raises the
  unsupported-depth error.
\<close>

theorem depth_rejected_by_flip_only:
  "(\<forall>A hp argv self.
      2 \<le> length argv \<longrightarrow>
      (BytesPerPixel (surf_format (hp ! self)) = 0 \<or> 4 < BytesPerPixel (surf_format (hp ! self))) \<longrightarrow>
      rbgm_transform_flip A hp argv self = (Inl SDLError_unsupported_depth, hp))
   \<and> (\<forall>B hp argv self zoomx zoomy.
      2 \<le> length argv \<longrightarrow> zoom_factors (argv ! 0) = Inr (zoomx, zoomy) \<longrightarrow>
      rbgm_transform_zoom B hp argv self
        = wrap_result (zoomSurface B hp self zoomx zoomy (\<not> VALUE_is_zero (argv ! 1))))
   \<and> (\<forall>B hp argv self angle zoom.
      3 \<le> length argv \<longrightarrow> NUM2DBL (argv ! 0) = Inr angle \<longrightarrow>
      NUM2DBL (argv ! 1) = Inr zoom \<longrightarrow> (HAVE_ROTOZOOMXY B \<or> 0 \<le> zoom) \<longrightarrow>
      rbgm_transform_rotozoom B hp argv self
        = wrap_result (rotozoomSurface B hp self angle zoom (\<not> VALUE_is_zero (argv ! 2))))
   \<and> (\<forall>B hp argv self angle zoomx zoomy.
      3 \<le> length argv \<longrightarrow> NUM2DBL (argv ! 0) = Inr angle \<longrightarrow>
      HAVE_ROTOZOOMXY B \<longrightarrow> rb_type (argv ! 1) = T_ARRAY \<longrightarrow>
      zoom_factors (argv ! 1) = Inr (zoomx, zoomy) \<longrightarrow>
      rbgm_transform_rotozoom B hp argv self
        = wrap_result (rotozoomSurfaceXY B hp self angle zoomx zoomy (\<not> VALUE_is_zero (argv ! 2))))
   \<and> (\<forall>B hp argv self. fst (rbgm_transform_zoom B hp argv self) \<noteq> Inl SDLError_unsupported_depth)
   \<and> (\<forall>B hp argv self. fst (rbgm_transform_rotozoom B hp argv self) \<noteq> Inl SDLError_unsupported_depth)"
proof (intro conjI allI impI)
  fix A :: allocator and hp :: heap and argv :: "VALUE list" and self :: nat
  assume "2 \<le> length argv"
    and "BytesPerPixel (surf_format (hp ! self)) = 0 \<or> 4 < BytesPerPixel (surf_format (hp ! self))"
  then show "rbgm_transform_flip A hp argv self = (Inl SDLError_unsupported_depth, hp)"
    by (rule flip_rejects_depth)
next
  fix B :: backend and hp :: heap and argv :: "VALUE list" and self :: nat and zoomx zoomy :: real
  assume "2 \<le> length argv" and "zoom_factors (argv ! 0) = Inr (zoomx, zoomy)"
  then show "rbgm_transform_zoom B hp argv self
        = wrap_result (zoomSurface B hp self zoomx zoomy (\<not> VALUE_is_zero (argv ! 1)))"
    by (rule zoom_hands_over)
next
  fix B :: backend and hp :: heap and argv :: "VALUE list" and self :: nat and angle zoom :: real
  assume "3 \<le> length argv" and "NUM2DBL (argv ! 0) = Inr angle"
    and "NUM2DBL (argv ! 1) = Inr zoom" and "HAVE_ROTOZOOMXY B \<or> 0 \<le> zoom"
  then show "rbgm_transform_rotozoom B hp argv self
        = wrap_result (rotozoomSurface B hp self angle zoom (\<not> VALUE_is_zero (argv ! 2)))"
    by (rule rotozoom_hands_over)
next
  fix B :: backend and hp :: heap and argv :: "VALUE list" and self :: nat
    and angle zoomx zoomy :: real
  assume "3 \<le> length argv" and "NUM2DBL (argv ! 0) = Inr angle"
    and "HAVE_ROTOZOOMXY B" and "rb_type (argv ! 1) = T_ARRAY"
    and "zoom_factors (argv ! 1) = Inr (zoomx, zoomy)"
  then show "rbgm_transform_rotozoom B hp argv self
        = wrap_result (rotozoomSurfaceXY B hp self angle zoomx zoomy (\<not> VALUE_is_zero (argv ! 2)))"
    by (rule rotozoomXY_hands_over)
qed (rule zoom_no_depth_check rotozoom_no_depth_check)+

theorem depth_rejected_by_flip_only_witness:
  "((2::nat) \<le> length [Qtrue, Qfalse] \<and>
    (BytesPerPixel (surf_format ([S5_src] ! 0)) = 0 \<or> 4 < BytesPerPixel (surf_format ([S5_src] ! 0))) \<and>
    rbgm_transform_flip sdl_pitch [S5_src] [Qtrue, Qfalse] 0 = (Inl SDLError_unsupported_depth, [S5_src]))
   \<and> ((2::nat) \<le> length [Fixnum 2, Qfalse] \<and>
    zoom_factors ([Fixnum 2, Qfalse] ! 0) = Inr (2, 2) \<and>
    rbgm_transform_zoom copy_backend [S5_src] [Fixnum 2, Qfalse] 0
      = wrap_result (zoomSurface copy_backend [S5_src] 0 2 2 (\<not> VALUE_is_zero ([Fixnum 2, Qfalse] ! 1))))
   \<and> ((3::nat) \<le> length [Fixnum 0, Fixnum 1, Qfalse] \<and>
    NUM2DBL ([Fixnum 0, Fixnum 1, Qfalse] ! 0) = Inr 0 \<and>
    NUM2DBL ([Fixnum 0, Fixnum 1, Qfalse] ! 1) = Inr 1 \<and>
    (HAVE_ROTOZOOMXY copy_backend \<or> (0::real) \<le> 1) \<and>
    rbgm_transform_rotozoom copy_backend [S5_src] [Fixnum 0, Fixnum 1, Qfalse] 0
      = wrap_result (rotozoomSurface copy_backend [S5_src] 0 0 1
          (\<not> VALUE_is_zero ([Fixnum 0, Fixnum 1, Qfalse] ! 2))))
   \<and> ((3::nat) \<le> length [Fixnum 0, Array 8 [Fixnum 2, Fixnum 3], Qfalse] \<and>
    NUM2DBL ([Fixnum 0, Array 8 [Fixnum 2, Fixnum 3], Qfalse] ! 0) = Inr 0 \<and>
    HAVE_ROTOZOOMXY (copy_backend\<lparr>HAVE_ROTOZOOMXY := True\<rparr>) \<and>
    rb_type ([Fixnum 0, Array 8 [Fixnum 2, Fixnum 3], Qfalse] ! 1) = T_ARRAY \<and>
    zoom_factors ([Fixnum 0, Array 8 [Fixnum 2, Fixnum 3], Qfalse] ! 1) = Inr (2, 3) \<and>
    rbgm_transform_rotozoom (copy_backend\<lparr>HAVE_ROTOZOOMXY := True\<rparr>) [S5_src]
        [Fixnum 0, Array 8 [Fixnum 2, Fixnum 3], Qfalse] 0
      = wrap_result (rotozoomSurfaceXY (copy_backend\<lparr>HAVE_ROTOZOOMXY := True\<rparr>) [S5_src] 0 0 2 3
          (\<not> VALUE_is_zero ([Fixnum 0, Array 8 [Fixnum 2, Fixnum 3], Qfalse] ! 2))))"
proof -
  have f: "(2::nat) \<le> length [Qtrue, Qfalse]"
    "BytesPerPixel (surf_format ([S5_src] ! 0)) = 0 \<or> 4 < BytesPerPixel (surf_format ([S5_src] ! 0))"
    by (simp_all add: S5_src_def plain_surface_def)
  have z: "(2::nat) \<le> length [Fixnum 2, Qfalse]"
    "zoom_factors ([Fixnum 2, Qfalse] ! 0) = Inr (2, 2)"
    by (simp_all add: zoom_factors_def attempt_def)
  have r: "(3::nat) \<le> length [Fixnum 0, Fixnum 1, Qfalse]"
    "NUM2DBL ([Fixnum 0, Fixnum 1, Qfalse] ! 0) = Inr 0"
    "NUM2DBL ([Fixnum 0, Fixnum 1, Qfalse] ! 1) = Inr 1"
    "HAVE_ROTOZOOMXY copy_backend \<or> (0::real) \<le> 1"
    by simp_all
  have x: "(3::nat) \<le> length [Fixnum 0, Array 8 [Fixnum 2, Fixnum 3], Qfalse]"
    "NUM2DBL ([Fixnum 0, Array 8 [Fixnum 2, Fixnum 3], Qfalse] ! 0) = Inr 0"
    "HAVE_ROTOZOOMXY (copy_backend\<lparr>HAVE_ROTOZOOMXY := True\<rparr>)"
    "rb_type ([Fixnum 0, Array 8 [Fixnum 2, Fixnum 3], Qfalse] ! 1) = T_ARRAY"
    "zoom_factors ([Fixnum 0, Array 8 [Fixnum 2, Fixnum 3], Qfalse] ! 1) = Inr (2, 3)"
    by (simp_all add: zoom_factors_def attempt_def)
  note t = depth_rejected_by_flip_only
  from t [THEN conjunct1, rule_format,
      where A = sdl_pitch and hp = "[S5_src]" and argv = "[Qtrue, Qfalse]" and self = 0]
    t [THEN conjunct2, THEN conjunct1, rule_format,
      where B = copy_backend and hp = "[S5_src]" and argv = "[Fixnum 2, Qfalse]" and self = 0
        and zoomx = 2 and zoomy = 2]
    t [THEN conjunct2, THEN conjunct2, THEN conjunct1, rule_format,
      where B = copy_backend and hp = "[S5_src]" and argv = "[Fixnum 0, Fixnum 1, Qfalse]"
        and self = 0 and angle = 0 and zoom = 1]
    t [THEN conjunct2, THEN conjunct2, THEN conjunct2, THEN conjunct1, rule_format,
      where B = "copy_backend\<lparr>HAVE_ROTOZOOMXY := True\<rparr>" and hp = "[S5_src]"
        and argv = "[Fixnum 0, Array 8 [Fixnum 2, Fixnum 3], Qfalse]"
        and self = 0 and angle = 0 and zoomx = 2 and zoomy = 3]
    f z r x
  show ?thesis by blast
qed

text \<open>
  The claim C5 as stated fails for \<open>rotozoom\<close>: on the source of scenario S5, with eight
  bytes per pixel, and a resampler that answers, \<open>rotozoom\<close> returns a new surface.
\<close>

theorem rotozoom_accepts_any_depth:
  "BytesPerPixel (surf_format S5_src) \<notin> {1, 2, 3, 4} \<and>
   rbgm_transform_rotozoom copy_backend [S5_src] [Fixnum 0, Fixnum 1, Qfalse] 0
     = (Inr 1, [S5_src, S5_src])"
  by code_simp



text \<open>
  C4 at a failing input. \<open>rotozoom_size ([4, 2], 0, 1)\<close> asks the resampler for the
  size of a 4 by 4 surface zoomed by 0: the height is read from element 0 of the size
  pair and the zoom factor from the angle argument. \<open>rotozoom (0, 1, false)\<close> hands the
  resampler the surface itself with angle 0 and zoom 1. \<open>zoom_size\<close> called with its
  two documented arguments raises \<open>ArgumentError\<close>, and with a third argument it too
  reads the height from element 0.
\<close>

theorem size_predictors_read_wrong_arguments:
  "rbgm_transform_rzsize B ary [Array a [Fixnum 4, Fixnum 2], Fixnum 0, Fixnum 1]
     = (case rotozoomSurfaceSize B 4 4 0 0 of
          (dstw, dsth) \<Rightarrow> Inr (Array ary [Fixnum dstw, Fixnum dsth]))
   \<and> rbgm_transform_rotozoom B hp [Fixnum 0, Fixnum 1, Qfalse] self
     = wrap_result (rotozoomSurface B hp self 0 1 False)
   \<and> rbgm_transform_zoomsize B ary [Array a [Fixnum 4, Fixnum 2], Fixnum 1]
     = Inl (ArgError_wrong_number 2 3)
   \<and> rbgm_transform_zoomsize B ary [Array a [Fixnum 4, Fixnum 2], Fixnum 1, Qnil]
     = (case zoomSurfaceSize B 4 4 1 1 of
          (dstw, dsth) \<Rightarrow> Inr (Array ary [Fixnum dstw, Fixnum dsth]))"
  by (simp add: rbgm_transform_rzsize_def rbgm_transform_rotozoom_def rbgm_transform_zoomsize_def
        zoom_factors_def attempt_def attempt_in_def INT2NUM_def rb_ary_new3_def check_int_def)

text \<open>
  C6 at a failing input, on a build without \<open>HAVE_ROTOZOOMXY\<close>. For a pair of zoom
  factors \<open>rotozoom\<close> raises the \<open>SDLError\<close> that carries the version triple and
  \<open>rotozoom_size\<close> returns \<open>nil\<close>, as claimed. For the negative zoom factor -1
  \<open>rotozoom\<close> raises, but \<open>rotozoom_size\<close> tests the sign of the angle, here 0, and
  returns a size.
\<close>

theorem rotozoom_size_misses_negative_zoom:
  "rbgm_transform_rotozoom (B\<lparr>HAVE_ROTOZOOMXY := False\<rparr>) hp
       [Fixnum 0, Array z [Fixnum 2, Fixnum 3], Qfalse] self
     = (Inl (SDLError_no_rotozoomxy (SDL_GFXPRIMITIVES_MAJOR B) (SDL_GFXPRIMITIVES_MINOR B)
               (SDL_GFXPRIMITIVES_MICRO B)), hp)
   \<and> rbgm_transform_rzsize (B\<lparr>HAVE_ROTOZOOMXY := False\<rparr>) ary
       [Array a [Fixnum 4, Fixnum 2], Fixnum 0, Array z [Fixnum 2, Fixnum 3]] = Inr Qnil
   \<and> rbgm_transform_rotozoom (B\<lparr>HAVE_ROTOZOOMXY := False\<rparr>) hp
       [Fixnum 0, Fixnum (- 1), Qfalse] self
     = (Inl (SDLError_negative_zoom (SDL_GFXPRIMITIVES_MAJOR B) (SDL_GFXPRIMITIVES_MINOR B)
               (SDL_GFXPRIMITIVES_MICRO B)), hp)
   \<and> rbgm_transform_rzsize (B\<lparr>HAVE_ROTOZOOMXY := False\<rparr>) ary
       [Array a [Fixnum 4, Fixnum 2], Fixnum 0, Fixnum (- 1)]
     = (case rotozoomSurfaceSize B 4 4 0 0 of
          (dstw, dsth) \<Rightarrow> Inr (Array ary [Fixnum dstw, Fixnum dsth]))
   \<and> rbgm_transform_rzsize (B\<lparr>HAVE_ROTOZOOMXY := False\<rparr>) ary
       [Array a [Fixnum 4, Fixnum 2], Fixnum 0, Fixnum (- 1)] \<noteq> Inr Qnil"
  by (simp add: rbgm_transform_rzsize_def rbgm_transform_rotozoom_def
        attempt_def attempt_in_def INT2NUM_def rb_ary_new3_def check_int_def split: prod.splits)

text \<open>
  C8 at the failing inputs. \<open>zoom\<close> with the zoom argument alone and \<open>rotozoom\<close> with
  the angle and the zoom alone raise \<open>ArgumentError\<close>: the arity checks require the
  \<open>smooth\<close> argument that the documentation calls optional.
\<close>

theorem smooth_cannot_be_omitted:
  "rbgm_transform_zoom B hp [Fixnum 2] self = (Inl (ArgError_wrong_number 1 1), hp)
   \<and> rbgm_transform_rotozoom B hp [Fixnum 0, Fixnum 1] self = (Inl (ArgError_wrong_number 2 3), hp)"
  by (simp add: rbgm_transform_zoom_def rbgm_transform_rotozoom_def)

text \<open>
  C9 at a failing input. With the string \<open>"abc"\<close> as zoom argument \<open>rotozoom\<close> raises
  the \<open>ArgumentError\<close> "wrong zoom factor type", but \<open>rotozoom_size\<close> tests the type of
  the angle argument instead, finds a number, and goes on with the angle as zoom
  factor.
\<close>

theorem rotozoom_size_accepts_wrong_zoom_type:
  "rbgm_transform_rotozoom B hp [Fixnum 0, Str z ''abc'', Qfalse] self
     = (Inl ArgError_wrong_zoom_type, hp)
   \<and> rbgm_transform_rzsize B ary [Array a [Fixnum 4, Fixnum 2], Fixnum 0, Str z ''abc'']
     = (case rotozoomSurfaceSize B 4 4 0 0 of
          (dstw, dsth) \<Rightarrow> Inr (Array ary [Fixnum dstw, Fixnum dsth]))
   \<and> rbgm_transform_rzsize B ary [Array a [Fixnum 4, Fixnum 2], Fixnum 0, Str z ''abc'']
     \<noteq> Inl ArgError_wrong_zoom_type"
  by (simp add: rbgm_transform_rzsize_def rbgm_transform_rotozoom_def
        attempt_def attempt_in_def INT2NUM_def rb_ary_new3_def check_int_def split: prod.splits)

end
